theory Spec2Isabelle
  imports Complex_Main
begin

section \<open>JavaScript strings\<close>

text \<open>
  A JavaScript string is modelled as a \<open>string\<close> (a list of \<open>char\<close>), one \<open>char\<close> per
  UTF-16 code unit in the range 0..255, i.e. the Latin-1 part of the Basic Multilingual
  Plane. This covers everything the scraper's patterns name: ASCII, the no-break space
  (0xA0, white space for \<open>trim\<close> and \<open>\s\<close>) and the superscript two (0xB2, the
  \<open>m\<^sup>2\<close> of the price and floor-size patterns). Code units above 255 are outside the
  model.
\<close>

text \<open>White space as \<open>String.prototype.trim\<close> and the regular expression class \<open>\s\<close>
  see it, restricted to code units below 256: TAB, LF, VT, FF, CR, SPACE and NBSP.\<close>

definition isSpace :: "char \<Rightarrow> bool" where
  "isSpace c = (of_char c \<in> {9, 10, 11, 12, 13, 32, 160 :: nat})"

text \<open>The class \<open>\d\<close>.\<close>

definition isDigit :: "char \<Rightarrow> bool" where
  "isDigit c = (48 \<le> (of_char c :: nat) \<and> (of_char c :: nat) \<le> 57)"

text \<open>\<open>s.trim()\<close>\<close>

definition trim :: "string \<Rightarrow> string" where
  "trim s = rev (dropWhile isSpace (rev (dropWhile isSpace s)))"

text \<open>\<open>s.split(sep)\<close> for a separator of one code unit: the pieces between the
  separators, so a string with \<open>k\<close> separators gives \<open>k + 1\<close> pieces and the empty
  string gives one empty piece.\<close>

fun js_split :: "char \<Rightarrow> string \<Rightarrow> string list" where
  "js_split sep [] = [[]]"
| "js_split sep (c # cs) =
     (if c = sep then [] # js_split sep cs
      else (case js_split sep cs of
              [] \<Rightarrow> [[c]]
            | p # ps \<Rightarrow> (c # p) # ps))"

text \<open>\<open>s.startsWith(p)\<close> and \<open>s.includes(p)\<close>.\<close>

definition startsWith :: "string \<Rightarrow> string \<Rightarrow> bool" where
  "startsWith s p = (take (length p) s = p)"

fun js_includes :: "string \<Rightarrow> string \<Rightarrow> bool" where
  "js_includes [] p = (p = [])"
| "js_includes (c # cs) p = (startsWith (c # cs) p \<or> js_includes cs p)"

text \<open>\<open>s.toLowerCase()\<close> on code units below 256: the ASCII capitals and the Latin-1
  capitals 0xC0..0xDE (the multiplication sign 0xD7 apart) move up by 32.\<close>

definition lowerChar :: "char \<Rightarrow> char" where
  "lowerChar c =
     (let n = (of_char c :: nat)
      in if (65 \<le> n \<and> n \<le> 90) \<or> (192 \<le> n \<and> n \<le> 222 \<and> n \<noteq> 215)
         then char_of (n + 32) else c)"

definition toLowerCase :: "string \<Rightarrow> string" where
  "toLowerCase s = map lowerChar s"

section \<open>Field parsers\<close>

subsection \<open>parseAddress\<close>

text \<open>The object \<open>parseAddress\<close> returns: five optional strings.\<close>

record address =
  street :: "string option"
  estate :: "string option"
  suburb :: "string option"
  city :: "string option"
  postalCode :: "string option"

text \<open>\<open>parts[i] || undefined\<close>: reading past the end of a JavaScript array gives
  \<open>undefined\<close>, and the empty string is falsy, so both give \<open>undefined\<close>.\<close>

definition partOr :: "string list \<Rightarrow> nat \<Rightarrow> string option" where
  "partOr parts i =
     (if i < length parts \<and> parts ! i \<noteq> [] then Some (parts ! i) else None)"

definition parseAddress :: "string \<Rightarrow> address" where
  "parseAddress addressText =
     (let parts = map trim (js_split CHR '','' addressText)
      in \<lparr> street = partOr parts 0,
           estate = partOr parts 1,
           suburb = partOr parts 2,
           city = partOr parts 3,
           postalCode = partOr parts 4 \<rparr>)"

text \<open>The field of an address at a position of the comma-separated input: 0 is the
  street, 4 the postal code; there is no field from position 5 on.\<close>

definition addressField :: "address \<Rightarrow> nat \<Rightarrow> string option" where
  "addressField a i =
     (if i = 0 then street a
      else if i = 1 then estate a
      else if i = 2 then suburb a
      else if i = 3 then city a
      else if i = 4 then postalCode a
      else None)"

text \<open>A field is absent, or a string that is not empty and has no white space at
  either end.\<close>

definition absentOrTrimmed :: "string option \<Rightarrow> bool" where
  "absentOrTrimmed f =
     (case f of
        None \<Rightarrow> True
      | Some t \<Rightarrow> t \<noteq> [] \<and> \<not> isSpace (hd t) \<and> \<not> isSpace (last t) \<and> trim t = t)"

subsection \<open>Numbers\<close>

text \<open>
  A JavaScript number as the field parsers produce it: \<open>NaN\<close>, an infinity, or a finite
  value. The finite value is kept as the exact decimal the digits denote; the rounding
  of \<open>parseFloat\<close> to the nearest IEEE double is not modelled (a sum of money written
  with fewer than sixteen digits is exact there too).
\<close>

datatype jsnumber = NaN | PosInfinity | NegInfinity | Finite rat

definition digitVal :: "char \<Rightarrow> nat" where
  "digitVal c = of_char c - 48"

definition decimalValue :: "string \<Rightarrow> nat" where
  "decimalValue ds = foldl (\<lambda>a c. 10 * a + digitVal c) 0 ds"

text \<open>An optional sign in front of a numeral: whether it is negative, and the rest.\<close>

definition splitSign :: "string \<Rightarrow> bool \<times> string" where
  "splitSign s =
     (case s of
        [] \<Rightarrow> (False, [])
      | c # cs \<Rightarrow>
          if c = CHR ''-'' then (True, cs)
          else if c = CHR ''+'' then (False, cs)
          else (False, s))"

text \<open>The exponent part \<open>e\<close>, sign, digits of a decimal literal, when the text starts
  with one; 0 otherwise.\<close>

definition exponentOf :: "string \<Rightarrow> int" where
  "exponentOf s =
     (case s of
        [] \<Rightarrow> 0
      | c # cs \<Rightarrow>
          if c = CHR ''e'' \<or> c = CHR ''E'' then
            (let (neg, r) = splitSign cs; ds = takeWhile isDigit r
             in if ds = [] then 0
                else if neg then - int (decimalValue ds) else int (decimalValue ds))
          else 0)"

definition scale10 :: "rat \<Rightarrow> int \<Rightarrow> rat" where
  "scale10 m e = (if 0 \<le> e then m * 10 ^ nat e else m / 10 ^ nat (- e))"

text \<open>
  \<open>parseFloat(s)\<close> (ECMA-262): skip leading white space, then read the longest prefix
  that is a decimal literal: a sign, then \<open>Infinity\<close> or digits with an optional
  fraction and exponent; \<open>NaN\<close> when there is no such prefix. What follows the prefix is
  ignored.
\<close>

definition parseFloat :: "string \<Rightarrow> jsnumber" where
  "parseFloat inputString =
     (let (neg, u) = splitSign (dropWhile isSpace inputString)
      in if startsWith u ''Infinity'' then (if neg then NegInfinity else PosInfinity)
         else
           (let intPart = takeWhile isDigit u;
                afterInt = dropWhile isDigit u;
                hasDot = (afterInt \<noteq> [] \<and> hd afterInt = CHR ''.'');
                fracPart = (if hasDot then takeWhile isDigit (tl afterInt) else []);
                afterFrac = (if hasDot then dropWhile isDigit (tl afterInt) else afterInt)
            in if intPart = [] \<and> fracPart = [] then NaN
               else
                 (let mant = rat_of_nat (decimalValue (intPart @ fracPart)) / 10 ^ length fracPart;
                      v = scale10 mant (exponentOf afterFrac)
                  in Finite (if neg then - v else v))))"

text \<open>\<open>parseInt(s, 10)\<close>: leading white space, a sign, then the digits; \<open>NaN\<close> without
  a digit.\<close>

definition parseInt10 :: "string \<Rightarrow> jsnumber" where
  "parseInt10 inputString =
     (let (neg, u) = splitSign (dropWhile isSpace inputString);
          ds = takeWhile isDigit u
      in if ds = [] then NaN
         else Finite (if neg then - rat_of_nat (decimalValue ds) else rat_of_nat (decimalValue ds)))"

subsection \<open>parsePrice\<close>

text \<open>The class \<open>[\s,\d.]\<close> of both price patterns.\<close>

definition isPriceChar :: "char \<Rightarrow> bool" where
  "isPriceChar c = (isSpace c \<or> c = CHR '','' \<or> isDigit c \<or> c = CHR ''.'')"

text \<open>
  \<open>priceText.match(/R[\s,\d.]+/)\<close>: the leftmost \<open>R\<close> that is followed by at least one
  character of the class, with the longest run of the class after it (the quantifier is
  greedy and nothing follows it in the pattern). The result is \<open>match[0]\<close>.
\<close>

fun matchTotalPrice :: "string \<Rightarrow> string option" where
  "matchTotalPrice [] = None"
| "matchTotalPrice (c # cs) =
     (if c = CHR ''R'' \<and> takeWhile isPriceChar cs \<noteq> []
      then Some (c # takeWhile isPriceChar cs)
      else matchTotalPrice cs)"

text \<open>
  \<open>/R[\s,\d.]+\s*per\s*m\<^sup>2/i\<close> tried at the head of a string. The flag \<open>i\<close> makes every
  letter of the pattern match in either case, the leading \<open>R\<close> included. The run of the
  class is taken whole: a shorter run would leave a character of the class in front of
  \<open>per\<close>, which \<open>\s*\<close> can only skip when it is white space, ending at the same place,
  so backtracking finds no other match.
\<close>

definition matchPerSqmAt :: "string \<Rightarrow> string option" where
  "matchPerSqmAt s =
     (case s of
        [] \<Rightarrow> None
      | c # cs \<Rightarrow>
          (let run = takeWhile isPriceChar cs;
               r1 = dropWhile isPriceChar cs;
               per = take 3 r1;
               r2 = drop 3 r1;
               sp = takeWhile isSpace r2;
               r3 = dropWhile isSpace r2
           in if lowerChar c = CHR ''r'' \<and> run \<noteq> [] \<and> toLowerCase per = ''per''
                 \<and> length r3 \<ge> 2 \<and> lowerChar (r3 ! 0) = CHR ''m'' \<and> r3 ! 1 = CHR 0xB2
              then Some (c # run @ per @ sp @ take 2 r3)
              else None))"

text \<open>\<open>priceText.match(/R[\s,\d.]+\s*per\s*m\<^sup>2/i)\<close>: the leftmost position where the
  pattern matches.\<close>

fun matchPricePerSqm :: "string \<Rightarrow> string option" where
  "matchPricePerSqm [] = None"
| "matchPricePerSqm (c # cs) =
     (case matchPerSqmAt (c # cs) of
        Some m \<Rightarrow> Some m
      | None \<Rightarrow> matchPricePerSqm cs)"

text \<open>\<open>.replace(/[R\s,]/g, "")\<close> and \<open>.replace(/[R\s,\/m\<^sup>2]/gi, "")\<close>: the characters
  of the class are deleted; under the flag \<open>i\<close> the letters \<open>R\<close> and \<open>m\<close> go in either
  case.\<close>

definition stripTotal :: "string \<Rightarrow> string" where
  "stripTotal s = filter (\<lambda>c. \<not> (c = CHR ''R'' \<or> isSpace c \<or> c = CHR '','')) s"

definition stripPerSqm :: "string \<Rightarrow> string" where
  "stripPerSqm s =
     filter (\<lambda>c. \<not> (lowerChar c = CHR ''r'' \<or> isSpace c \<or> c = CHR '','' \<or> c = CHR ''/''
                    \<or> lowerChar c = CHR ''m'' \<or> c = CHR 0xB2)) s"

record price =
  totalPrice :: "jsnumber option"
  pricePerSqm :: "jsnumber option"

definition parsePrice :: "string \<Rightarrow> price" where
  "parsePrice priceText =
     \<lparr> totalPrice =
         (case matchTotalPrice priceText of
            Some m \<Rightarrow> Some (parseFloat (stripTotal m))
          | None \<Rightarrow> None),
       pricePerSqm =
         (case matchPricePerSqm priceText of
            Some m \<Rightarrow> Some (parseFloat (stripPerSqm m))
          | None \<Rightarrow> None) \<rparr>"

subsection \<open>extractNumber and the floor size\<close>

text \<open>
  The patterns \<open>/(\d+)\s*(?:bed|bedroom)/i\<close>, \<open>/(\d+)\s*(?:bath|bathroom)/i\<close> and
  \<open>/(\d+)\s*(?:m\<^sup>2|sqm|m2)/i\<close> share one shape: digits, optional white space, one of a
  few keywords in either case. \<open>matchDigitsBefore kws text\<close> is group 1 of the leftmost
  match, \<open>kws\<close> being the keywords in lower case. At a digit the run of digits is taken
  whole: after a shorter run the next character is a digit, which neither \<open>\s*\<close> nor a
  keyword matches.
\<close>

fun matchDigitsBefore :: "string list \<Rightarrow> string \<Rightarrow> string option" where
  "matchDigitsBefore kws [] = None"
| "matchDigitsBefore kws (c # cs) =
     (if isDigit c
         \<and> list_ex (startsWith (toLowerCase (dropWhile isSpace (dropWhile isDigit cs)))) kws
      then Some (c # takeWhile isDigit cs)
      else matchDigitsBefore kws cs)"

text \<open>\<open>extractNumber(text, pattern)\<close>, the pattern given by its keywords.\<close>

definition extractNumber :: "string \<Rightarrow> string list \<Rightarrow> jsnumber option" where
  "extractNumber t kws =
     (case matchDigitsBefore kws t of
        Some g \<Rightarrow> Some (parseInt10 g)
      | None \<Rightarrow> None)"

subsection \<open>parseDate\<close>

text \<open>A \<open>Date\<close> object: a time value in milliseconds, or the invalid date (time value
  \<open>NaN\<close>).\<close>

datatype jsdate = InvalidDate | DateOf int

text \<open>Exactly \<open>n\<close> digits at the head of a string.\<close>

definition digitsAt :: "nat \<Rightarrow> string \<Rightarrow> bool" where
  "digitsAt n s = (length (take n s) = n \<and> list_all isDigit (take n s))"

text \<open>A string of the shape \<open>YYYY-MM-DD\<close>, the date-only form of the ECMA-262 date-time
  string format: its year, month and day.\<close>

definition isoDateOnly :: "string \<Rightarrow> (nat \<times> nat \<times> nat) option" where
  "isoDateOnly s =
     (if length s = 10 \<and> digitsAt 4 s \<and> s ! 4 = CHR ''-'' \<and> digitsAt 2 (drop 5 s)
         \<and> s ! 7 = CHR ''-'' \<and> digitsAt 2 (drop 8 s)
      then Some (decimalValue (take 4 s), decimalValue (take 2 (drop 5 s)),
                 decimalValue (take 2 (drop 8 s)))
      else None)"

text \<open>
  \<open>new Date(s)\<close> for a string. ECMA-262 (\<open>Date.parse\<close>) fixes one part: a string in
  the date-time format with an element out of bounds (a month outside 01..12, a day
  outside 01..31) gives the invalid date. Everything else (which instant a well-formed
  string names, and how a string outside the format is read) is up to the JavaScript
  engine: the parameter \<open>engine\<close>.
\<close>

definition newDate :: "(string \<Rightarrow> jsdate) \<Rightarrow> string \<Rightarrow> jsdate" where
  "newDate engine s =
     (case isoDateOnly s of
        Some (y, m, d) \<Rightarrow>
          if m < 1 \<or> 12 < m \<or> d < 1 \<or> 31 < d then InvalidDate else engine s
      | None \<Rightarrow> engine s)"

definition isDateSep :: "string \<Rightarrow> bool" where
  "isDateSep s = (s \<noteq> [] \<and> (hd s = CHR ''/'' \<or> hd s = CHR ''-''))"

text \<open>\<open>(\d{1,2})[\/\-](\d{1,2})[\/\-](\d{4})\<close> at the head of a string, with group 1 of
  \<open>a\<close> digits and group 2 of \<open>b\<close> digits: the groups (day, month, year).\<close>

definition dmyWith :: "nat \<Rightarrow> nat \<Rightarrow> string \<Rightarrow> (string \<times> string \<times> string) option" where
  "dmyWith a b s =
     (let r1 = drop a s; r2 = drop (Suc b) r1
      in if digitsAt a s \<and> isDateSep r1 \<and> digitsAt b (tl r1) \<and> isDateSep r2
            \<and> digitsAt 4 (tl r2)
         then Some (take a s, take b (tl r1), take 4 (tl r2))
         else None)"

text \<open>The same at the head of a string, in the order a backtracking matcher with
  greedy quantifiers tries the group lengths: two digits before one, group 1 varying
  last.\<close>

definition matchDMYAt :: "string \<Rightarrow> (string \<times> string \<times> string) option" where
  "matchDMYAt s =
     (case dmyWith 2 2 s of Some g \<Rightarrow> Some g | None \<Rightarrow>
      (case dmyWith 2 1 s of Some g \<Rightarrow> Some g | None \<Rightarrow>
       (case dmyWith 1 2 s of Some g \<Rightarrow> Some g | None \<Rightarrow> dmyWith 1 1 s)))"

text \<open>\<open>dateText.match(/(\d{1,2})[\/\-](\d{1,2})[\/\-](\d{4})/)\<close>: the leftmost match.\<close>

fun matchDMY :: "string \<Rightarrow> (string \<times> string \<times> string) option" where
  "matchDMY [] = None"
| "matchDMY (c # cs) =
     (case matchDMYAt (c # cs) of
        Some g \<Rightarrow> Some g
      | None \<Rightarrow> matchDMY cs)"

text \<open>
  \<open>parseDate(dateText)\<close>; \<open>None\<close> is \<open>undefined\<close>, on either side. The first branch
  returns the date only when its time value is not \<open>NaN\<close>; the second returns whatever
  \<open>new Date\<close> gives for the rearranged text.
\<close>

definition parseDate :: "(string \<Rightarrow> jsdate) \<Rightarrow> string option \<Rightarrow> jsdate option" where
  "parseDate engine dateText =
     (case dateText of
        None \<Rightarrow> None
      | Some t \<Rightarrow>
          if t = [] then None
          else
            (let iso = (if CHR ''T'' \<in> set t
                        then (case newDate engine t of
                                InvalidDate \<Rightarrow> None
                              | DateOf ms \<Rightarrow> Some (DateOf ms))
                        else None)
             in case iso of
                  Some d \<Rightarrow> Some d
                | None \<Rightarrow>
                    (case matchDMY t of
                       Some (d, m, y) \<Rightarrow> Some (newDate engine (y @ ''-'' @ m @ ''-'' @ d))
                     | None \<Rightarrow> None)))"

subsection \<open>Status\<close>

datatype status = Sold | Under_offer | No_offer

text \<open>The classification of the status element's text (the \<open>if\<close> chain on
  \<open>statusText\<close>, which is the text in lower case).\<close>

definition statusOfText :: "string \<Rightarrow> status option" where
  "statusOfText elementText =
     (let statusText = toLowerCase elementText
      in if js_includes statusText ''sold'' then Some Sold
         else if js_includes statusText ''offer'' then Some Under_offer
         else None)"

section \<open>Record extraction\<close>

text \<open>
  The \<open>Property\<close> object \<open>extractProperties\<close> builds: the fourteen keys it writes. The
  interface's remaining keys (\<open>id\<close>, \<open>rates_and_taxes\<close>, \<open>levies\<close>, \<open>scrape_date\<close>,
  \<open>created_at\<close>, \<open>updated_at\<close>) are never written by the scraper. \<open>suburb\<close> and \<open>city\<close>
  carry the prefix \<open>property_\<close> here, the plain names being the fields of the address.
\<close>

record property =
  property_url :: string
  street_address :: "string option"
  estate_complex :: "string option"
  property_suburb :: string
  property_city :: "string option"
  postal_code :: "string option"
  floor_size_sqm :: "jsnumber option"
  total_price :: "jsnumber option"
  price_per_sqm :: "jsnumber option"
  property_type :: "string option"
  bedrooms :: "jsnumber option"
  bathrooms :: "jsnumber option"
  status :: "status option"
  listing_date :: "jsdate option"

text \<open>
  The cheerio library is not code of the scraper, so the model takes it as a parameter:
  a selection is the list of its elements in document order, \<open>'e\<close> being the type of
  elements.
  \<^item> \<open>ch_select html sel\<close> is \<open>cheerio.load(html)(sel)\<close>;
  \<^item> \<open>ch_find es sel\<close> is \<open>es.find(sel)\<close>, \<open>ch_closest es sel\<close> is \<open>es.closest(sel)\<close>;
  \<^item> \<open>ch_attr e name\<close> is the attribute of one element, \<open>None\<close> when it has none;
  \<^item> \<open>ch_text e\<close> is the text of one element and its descendants.
  The selectors are constant and well formed, so these calls are taken not to throw;
  the \<open>catch\<close> around the work on one container is therefore never entered in the model.
\<close>

record 'e cheerio =
  ch_select :: "string \<Rightarrow> string \<Rightarrow> 'e list"
  ch_find :: "'e list \<Rightarrow> string \<Rightarrow> 'e list"
  ch_closest :: "'e list \<Rightarrow> string \<Rightarrow> 'e list"
  ch_attr :: "'e \<Rightarrow> string \<Rightarrow> string option"
  ch_text :: "'e \<Rightarrow> string"

text \<open>\<open>es.text()\<close> joins the texts of the elements of the selection; \<open>es.attr(name)\<close>
  reads the first element; \<open>es.first()\<close> keeps the first element.\<close>

definition selText :: "'e cheerio \<Rightarrow> 'e list \<Rightarrow> string" where
  "selText ch es = concat (map (ch_text ch) es)"

definition selAttr :: "'e cheerio \<Rightarrow> 'e list \<Rightarrow> string \<Rightarrow> string option" where
  "selAttr ch es name = (case es of [] \<Rightarrow> None | e # _ \<Rightarrow> ch_attr ch e name)"

definition selFirst :: "'e list \<Rightarrow> 'e list" where
  "selFirst es = take 1 es"

text \<open>Truthiness of a value that is a string or \<open>undefined\<close>: the empty string and
  \<open>undefined\<close> are falsy.\<close>

definition truthy :: "string option \<Rightarrow> bool" where
  "truthy v = (case v of None \<Rightarrow> False | Some u \<Rightarrow> u \<noteq> [])"

text \<open>\<open>v || d\<close> for a \<open>v\<close> that is a string or \<open>undefined\<close>.\<close>

definition orElse :: "string option \<Rightarrow> string \<Rightarrow> string" where
  "orElse v d = (case v of None \<Rightarrow> d | Some u \<Rightarrow> if u = [] then d else u)"

definition BASE_URL :: string where
  "BASE_URL = ''https://www.property24.com''"

definition containerSelector :: string where
  "containerSelector =
     ''[data-test-id=\"property-card\"], .property-card, [class*=\"property\"], article''"

text \<open>The \<open>each\<close> loop over the \<open>/for-sale/\<close> links: \<open>propertyUrl\<close> becomes the first
  truthy \<open>href\<close> and then stays.\<close>

fun firstHref :: "string option list \<Rightarrow> string option" where
  "firstHref [] = None"
| "firstHref (h # hs) = (if truthy h then h else firstHref hs)"

text \<open>The listing link of one container: \<open>propertyUrl\<close> as it stands when the code
  tests \<open>if (!propertyUrl) return\<close>.\<close>

definition propertyUrlOf :: "'e cheerio \<Rightarrow> 'e \<Rightarrow> string option" where
  "propertyUrlOf ch element =
     (let propertyUrl =
            firstHref (map (\<lambda>el. ch_attr ch el ''href'')
                         (ch_find ch [element] ''a[href*=\"/for-sale/\"]''))
      in if truthy propertyUrl then propertyUrl
         else
           (let titleEl = ch_find ch [element] ''h2, [class*=\"title\"], a[href*=\"/p/\"]'';
                linkEl = (if length (ch_find ch titleEl ''a'') \<noteq> 0
                          then ch_find ch titleEl ''a''
                          else ch_closest ch titleEl ''a'')
            in selAttr ch linkEl ''href''))"

definition fullUrlOf :: "string \<Rightarrow> string" where
  "fullUrlOf propertyUrl =
     (if startsWith propertyUrl ''http'' then propertyUrl
      else ''https://www.property24.com'' @ propertyUrl)"

definition isPropertyTypeText :: "string \<Rightarrow> bool" where
  "isPropertyTypeText t =
     (let lower = toLowerCase t
      in js_includes lower ''house'' \<or> js_includes lower ''apartment''
         \<or> js_includes lower ''townhouse'' \<or> js_includes lower ''land'')"

definition isStatusText :: "string \<Rightarrow> bool" where
  "isStatusText t =
     (let lower = toLowerCase t
      in js_includes lower ''sold'' \<or> js_includes lower ''offer''
         \<or> js_includes lower ''listed'')"

text \<open>The text of the status element: the first element among
  \<open>[class*="status"], span\<close> whose text names a status.\<close>

definition statusElementText :: "'e cheerio \<Rightarrow> 'e \<Rightarrow> string" where
  "statusElementText ch element =
     selText ch (selFirst (filter (\<lambda>el. isStatusText (ch_text ch el))
                             (ch_find ch [element] ''[class*=\"status\"], span'')))"

text \<open>
  The body of the \<open>each\<close> callback for one container: \<open>None\<close> when the callback returns
  early (no listing link), the record it pushes otherwise. \<open>engine\<close> is the date parser of
  the JavaScript engine, \<open>optSuburb\<close> is \<open>this.options.suburb\<close>.
\<close>

definition extractContainer ::
  "'e cheerio \<Rightarrow> (string \<Rightarrow> jsdate) \<Rightarrow> string \<Rightarrow> 'e \<Rightarrow> property option" where
  "extractContainer ch engine optSuburb element =
     (case propertyUrlOf ch element of
        None \<Rightarrow> None
      | Some propertyUrl \<Rightarrow>
          if propertyUrl = [] then None
          else
            (let fullUrl = fullUrlOf propertyUrl;
                 addressText = selText ch (ch_find ch [element] ''[class*=\"address\"], .address, span'');
                 addressParts = parseAddress addressText;
                 priceText = selText ch (selFirst (ch_find ch [element] ''[class*=\"price\"], .price''));
                 prices = parsePrice priceText;
                 propertyTypeEl =
                   selFirst (filter (\<lambda>el. isPropertyTypeText (ch_text ch el))
                               (ch_find ch [element] ''[class*=\"property-type\"], span''));
                 propertyType = trim (selText ch propertyTypeEl);
                 features = selText ch (ch_find ch [element] ''[class*=\"feature\"], li'');
                 listingDateText =
                   (let dt = selAttr ch (ch_find ch [element] ''[class*=\"date\"], time'') ''datetime''
                    in if truthy dt then dt
                       else Some (selText ch (ch_find ch [element] ''[class*=\"listed\"]'')))
             in Some
                  \<lparr> property_url = fullUrl,
                    street_address = street addressParts,
                    estate_complex = estate addressParts,
                    property_suburb = orElse (suburb addressParts) optSuburb,
                    property_city = city addressParts,
                    postal_code = postalCode addressParts,
                    floor_size_sqm =
                      (case matchDigitsBefore [''m'' @ [CHR 0xB2], ''sqm'', ''m2''] features of
                         Some g \<Rightarrow> Some (parseFloat g)
                       | None \<Rightarrow> None),
                    total_price = totalPrice prices,
                    price_per_sqm = pricePerSqm prices,
                    property_type = (if propertyType = [] then None else Some propertyType),
                    bedrooms = extractNumber features [''bed'', ''bedroom''],
                    bathrooms = extractNumber features [''bath'', ''bathroom''],
                    status = statusOfText (statusElementText ch element),
                    listing_date = parseDate engine listingDateText \<rparr>))"

text \<open>
  \<open>extractProperties\<close> on the page's markup (\<open>page.content()\<close> is read by the caller,
  see the pagination walk): the records of the containers in document order, a container
  without a listing link adding nothing.
\<close>

definition extractPropertiesHtml ::
  "'e cheerio \<Rightarrow> (string \<Rightarrow> jsdate) \<Rightarrow> string \<Rightarrow> string \<Rightarrow> property list" where
  "extractPropertiesHtml ch engine optSuburb htmlContent =
     (let propertyElements = ch_select ch htmlContent containerSelector
      in if length propertyElements = 0 then []
         else List.map_filter (extractContainer ch engine optSuburb) propertyElements)"

subsection \<open>A small page for concrete runs\<close>

text \<open>
  A concrete cheerio for evaluating the extractor: elements are numbers. The markup
  \<open>page 1\<close> has three containers 1, 2, 3: container 1 holds a \<open>/for-sale/\<close> link with a
  relative \<open>href\<close> and a \<open>Sold\<close> badge, container 2 holds no link at all, container 3
  holds an absolute link under its title and an \<open>Under Offer\<close> badge. The markup
  \<open>page 2\<close> has no container, \<open>page 3\<close> has the one container 4 with a relative link.
\<close>

definition demoCheerio :: "nat cheerio" where
  "demoCheerio =
     \<lparr> ch_select = (\<lambda>html sel.
         if sel = containerSelector then
           (if html = ''page 1'' then [1, 2, 3]
            else if html = ''page 3'' then [4]
            else [])
         else []),
       ch_find = (\<lambda>es sel.
         if sel = ''a[href*=\"/for-sale/\"]'' then
           (if es = [1] then [10] else if es = [4] then [40] else [])
         else if sel = ''h2, [class*=\"title\"], a[href*=\"/p/\"]'' then
           (if es = [3] then [30] else [])
         else if sel = ''a'' then
           (if es = [30] then [31] else [])
         else if sel = ''[class*=\"status\"], span'' then
           (if es = [1] then [11, 12] else if es = [3] then [32] else [])
         else []),
       ch_closest = (\<lambda>es sel. []),
       ch_attr = (\<lambda>e name.
         if name = ''href'' then
           (if e = 10 then Some ''/for-sale/sandton/1''
            else if e = 31 then Some ''https://www.property24.com/p/3''
            else if e = 40 then Some ''/for-sale/sandton/4''
            else None)
         else None),
       ch_text = (\<lambda>e.
         if e = 11 then ''3 Bedroom House''
         else if e = 12 then ''SOLD - offer accepted''
         else if e = 32 then ''Under Offer''
         else []) \<rparr>"

section \<open>The browser and the scraper object\<close>

subsection \<open>Results, effects and the trace of calls\<close>

text \<open>
  An awaited call either returns a value or throws. What the scraper does with a thrown
  value is read its message (\<open>error instanceof Error ? error.message : String(error)\<close>),
  so a throw is modelled by that message: \<open>Inl message\<close>; \<open>Inr v\<close> is a normal return.
\<close>

type_synonym 'a result = "string + 'a"

text \<open>The calls the scraper makes on puppeteer, with the arguments that vary.\<close>

datatype call =
    Launch
  | BrowserClose
  | NewPage
  | Goto string
  | WaitForSelector string
  | WaitForNavigation
  | Query string
  | ClickHandle string
  | Focus string
  | Click string
  | TypeText string string
  | Press string
  | Content
  | Screenshot string
  | PageClose

text \<open>
  Puppeteer is not code of the scraper: the model takes it as a parameter, a record of
  operations on a browser world \<open>'w\<close> (the browser, its one page and the site behind
  it). Each operation returns its result and the new world; each is total, i.e. every
  awaited call is taken to settle (puppeteer's own timeouts make a call that takes too
  long throw).
  \<^item> \<open>pp_launch headless\<close>: \<open>puppeteer.launch\<close>; \<open>pp_browserClose\<close>: \<open>browser.close()\<close>;
  \<^item> \<open>pp_newPage\<close>: \<open>browser.newPage()\<close>; \<open>pp_pageClose\<close>: \<open>page.close()\<close>;
  \<^item> \<open>pp_goto url timeout\<close>, \<open>pp_waitForSelector sel timeout\<close>,
    \<open>pp_waitForNavigation timeout\<close>: the page's navigation and waits;
  \<^item> \<open>pp_query sel\<close>: \<open>page.$(sel)\<close>, \<open>True\<close> for an element handle and \<open>False\<close> for
    \<open>null\<close>; \<open>pp_clickHandle sel\<close>: \<open>click()\<close> on the handle \<open>page.$(sel)\<close> gave;
  \<^item> \<open>pp_focus\<close>, \<open>pp_click\<close>, \<open>pp_type\<close>, \<open>pp_press\<close>: focus, click and typing by
    selector, and \<open>page.keyboard.press\<close>;
  \<^item> \<open>pp_url\<close>: \<open>page.url()\<close>, a plain read; \<open>pp_content\<close>: \<open>page.content()\<close>;
  \<^item> \<open>pp_screenshot counter label\<close>: \<open>page.screenshot\<close> into the file named after the
    counter, the label and the time.
\<close>

record 'w puppeteer =
  pp_launch :: "bool \<Rightarrow> 'w \<Rightarrow> unit result \<times> 'w"
  pp_browserClose :: "'w \<Rightarrow> unit result \<times> 'w"
  pp_newPage :: "'w \<Rightarrow> unit result \<times> 'w"
  pp_pageClose :: "'w \<Rightarrow> unit result \<times> 'w"
  pp_goto :: "string \<Rightarrow> nat \<Rightarrow> 'w \<Rightarrow> unit result \<times> 'w"
  pp_waitForSelector :: "string \<Rightarrow> nat \<Rightarrow> 'w \<Rightarrow> unit result \<times> 'w"
  pp_waitForNavigation :: "nat \<Rightarrow> 'w \<Rightarrow> unit result \<times> 'w"
  pp_query :: "string \<Rightarrow> 'w \<Rightarrow> bool result \<times> 'w"
  pp_clickHandle :: "string \<Rightarrow> 'w \<Rightarrow> unit result \<times> 'w"
  pp_focus :: "string \<Rightarrow> 'w \<Rightarrow> unit result \<times> 'w"
  pp_click :: "string \<Rightarrow> 'w \<Rightarrow> unit result \<times> 'w"
  pp_type :: "string \<Rightarrow> string \<Rightarrow> 'w \<Rightarrow> unit result \<times> 'w"
  pp_press :: "string \<Rightarrow> 'w \<Rightarrow> unit result \<times> 'w"
  pp_url :: "'w \<Rightarrow> string"
  pp_content :: "'w \<Rightarrow> string result \<times> 'w"
  pp_screenshot :: "nat \<Rightarrow> string \<Rightarrow> 'w \<Rightarrow> unit result \<times> 'w"

text \<open>
  A \<open>Property24Scraper\<close> object together with the world it acts on: the fields of the
  class (\<open>browser\<close> is whether \<open>this.browser\<close> is set; the options carry the prefix
  \<open>opt_\<close>), the browser world, and the trace of the puppeteer calls made so far, each
  with whether it returned normally. The trace is the model's record of the effects; the
  code has no such field.
\<close>

record 'w scraper =
  world :: 'w
  browser :: bool
  opt_suburb :: string
  opt_headless :: "bool option"
  opt_timeout :: "nat option"
  screenshotCounter :: nat
  listingUrlForSuburb :: "string option"
  trace :: "(call \<times> bool) list"

text \<open>An asynchronous method of the scraper: from the state to a result and the new
  state.\<close>

type_synonym ('w, 'a) action = "'w scraper \<Rightarrow> 'a result \<times> 'w scraper"

definition retM :: "'a \<Rightarrow> ('w, 'a) action" where
  "retM x s = (Inr x, s)"

definition throwM :: "string \<Rightarrow> ('w, 'a) action" where
  "throwM e s = (Inl e, s)"

text \<open>Sequencing: a throw of the first part skips the rest.\<close>

definition bindM :: "('w, 'a) action \<Rightarrow> ('a \<Rightarrow> ('w, 'b) action) \<Rightarrow> ('w, 'b) action" where
  "bindM m f s = (case m s of (Inl e, s1) \<Rightarrow> (Inl e, s1) | (Inr x, s1) \<Rightarrow> f x s1)"

text \<open>\<open>try { m } catch (e) { h(e) }\<close>, and \<open>promise.catch(h)\<close>.\<close>

definition catchM :: "('w, 'a) action \<Rightarrow> (string \<Rightarrow> ('w, 'a) action) \<Rightarrow> ('w, 'a) action" where
  "catchM m h s = (case m s of (Inl e, s1) \<Rightarrow> h e s1 | (Inr x, s1) \<Rightarrow> (Inr x, s1))"

text \<open>\<open>try { m } finally { c }\<close>: \<open>c\<close> runs whatever \<open>m\<close> did; a throw of \<open>c\<close> replaces the
  completion of \<open>m\<close>, otherwise the completion of \<open>m\<close> stands.\<close>

definition finallyM :: "('w, 'a) action \<Rightarrow> ('w, unit) action \<Rightarrow> ('w, 'a) action" where
  "finallyM m c s =
     (case m s of
        (r, s1) \<Rightarrow> (case c s1 of (Inl e, s2) \<Rightarrow> (Inl e, s2) | (Inr u, s2) \<Rightarrow> (r, s2)))"

definition getsM :: "('w scraper \<Rightarrow> 'a) \<Rightarrow> ('w, 'a) action" where
  "getsM g s = (Inr (g s), s)"

definition modifyM :: "('w scraper \<Rightarrow> 'w scraper) \<Rightarrow> ('w, unit) action" where
  "modifyM g s = (Inr (), g s)"

text \<open>An awaited puppeteer call: the operation runs on the world and the call is
  appended to the trace with whether it returned normally.\<close>

definition callM :: "call \<Rightarrow> ('w \<Rightarrow> 'a result \<times> 'w) \<Rightarrow> ('w, 'a) action" where
  "callM c op s =
     (case op (world s) of
        (r, w) \<Rightarrow> (r, s\<lparr> world := w, trace := trace s @ [(c, \<not> isl r)] \<rparr>))"

subsection \<open>Construction, init and close\<close>

text \<open>\<open>ScraperOptions\<close>: \<open>None\<close> is a key that is not given.\<close>

record ScraperOptions =
  o_suburb :: string
  o_headless :: "bool option"
  o_timeout :: "nat option"

text \<open>
  \<open>new Property24Scraper(options)\<close> on the world \<open>w\<close>: the defaults \<open>headless: true\<close> and
  \<open>timeout: 30000\<close> stand where the options give no value; no browser yet, the screenshot
  counter at 0, the cache of the listing URL empty. (The constructor also creates the
  screenshot directory; the file system is not part of the model.)
\<close>

definition newScraper :: "ScraperOptions \<Rightarrow> 'w \<Rightarrow> 'w scraper" where
  "newScraper options w =
     \<lparr> world = w,
       browser = False,
       opt_suburb = o_suburb options,
       opt_headless = (case o_headless options of None \<Rightarrow> Some True | Some b \<Rightarrow> Some b),
       opt_timeout = (case o_timeout options of None \<Rightarrow> Some 30000 | Some t \<Rightarrow> Some t),
       screenshotCounter = 0,
       listingUrlForSuburb = None,
       trace = [] \<rparr>"

definition init :: "'w puppeteer \<Rightarrow> ('w, unit) action" where
  "init pp =
     bindM (getsM opt_headless) (\<lambda>h.
     bindM (callM Launch (pp_launch pp (case h of None \<Rightarrow> True | Some b \<Rightarrow> b))) (\<lambda>u.
     modifyM (\<lambda>s. s\<lparr> browser := True \<rparr>)))"

definition closeScraper :: "'w puppeteer \<Rightarrow> ('w, unit) action" where
  "closeScraper pp =
     bindM (getsM browser) (\<lambda>b.
     if b then callM BrowserClose (pp_browserClose pp) else retM ())"

subsection \<open>takeScreenshot and closeCookieBanner\<close>

text \<open>\<open>takeScreenshot\<close>: the counter goes up, the screenshot is taken, and whatever is
  thrown is caught and logged.\<close>

definition takeScreenshot :: "'w puppeteer \<Rightarrow> string \<Rightarrow> ('w, unit) action" where
  "takeScreenshot pp label =
     catchM
       (bindM (modifyM (\<lambda>s. s\<lparr> screenshotCounter := Suc (screenshotCounter s) \<rparr>)) (\<lambda>u.
        bindM (getsM screenshotCounter) (\<lambda>n.
        callM (Screenshot label) (pp_screenshot pp n label))))
       (\<lambda>e. retM ())"

definition closeCookieBanner :: "'w puppeteer \<Rightarrow> ('w, unit) action" where
  "closeCookieBanner pp =
     bindM (callM (Query ''button[id=\"cookieBannerClose\"]'')
              (pp_query pp ''button[id=\"cookieBannerClose\"]'')) (\<lambda>cookieButton.
     if cookieButton then
       bindM (callM (ClickHandle ''button[id=\"cookieBannerClose\"]'')
                (pp_clickHandle pp ''button[id=\"cookieBannerClose\"]'')) (\<lambda>u.
       takeScreenshot pp ''cookie-consent-closed'')
     else retM ())"

subsection \<open>findListingUrlForSuburb\<close>

text \<open>The three tests on the resolved URL; each pattern is ASCII and carries the flag
  \<open>i\<close>.\<close>

definition isListingUrl :: "string \<Rightarrow> bool" where
  "isListingUrl resolved =
     (js_includes (toLowerCase resolved) ''/properties/''
      \<or> js_includes (toLowerCase resolved) ''for-sale''
      \<or> js_includes (toLowerCase resolved) ''/p/'')"

definition searchInputSelectors :: "string list" where
  "searchInputSelectors =
     [''input[id*=\"token-input-AutoCompleteItems\"]'',
      ''input[placeholder*=\"Search for a City, Suburb or Web Reference\"]'']"

definition searchButton :: string where
  "searchButton = ''button[class=\"btn btn-danger\"]''"

text \<open>
  The \<open>try\<close> block of the loop body for one search input that exists: \<open>Some resolved\<close>
  when the block returns the resolved URL, \<open>None\<close> when it runs to its end (the URL did
  not pass the tests). (The line that creates a timer and does not wait for it has no
  effect and is left out.)
\<close>

definition searchWith :: "'w puppeteer \<Rightarrow> string \<Rightarrow> string \<Rightarrow> ('w, string option) action" where
  "searchWith pp suburbName sel =
     bindM (callM (Focus sel) (pp_focus pp sel)) (\<lambda>u.
     bindM (catchM (callM (Click sel) (pp_click pp sel)) (\<lambda>e. retM ())) (\<lambda>u.
     bindM (callM (TypeText sel suburbName) (pp_type pp sel suburbName)) (\<lambda>u.
     bindM (takeScreenshot pp ''search-input-filled'') (\<lambda>u.
     bindM (catchM (callM (Press ''Enter'') (pp_press pp ''Enter''))
              (\<lambda>e. throwM ''Failed to press enter key to submit search'')) (\<lambda>u.
     bindM (takeScreenshot pp ''search-submitted'') (\<lambda>u.
     bindM (callM (Focus searchButton) (pp_focus pp searchButton)) (\<lambda>u.
     bindM (catchM (callM (Click searchButton) (pp_click pp searchButton))
              (\<lambda>e. throwM ''No search button found'')) (\<lambda>u.
     bindM (takeScreenshot pp ''search-button-clicked'') (\<lambda>u.
     bindM (catchM
              (bindM (callM WaitForNavigation (pp_waitForNavigation pp 30000)) (\<lambda>u.
               takeScreenshot pp ''after-navigation''))
              (\<lambda>e. takeScreenshot pp ''navigation-timeout'')) (\<lambda>u.
     bindM (getsM (\<lambda>s. pp_url pp (world s))) (\<lambda>resolved.
     retM (if isListingUrl resolved then Some resolved else None))))))))))))"

text \<open>The \<open>for\<close> loop over the search inputs, and the \<open>throw\<close> after it.\<close>

fun searchLoop :: "'w puppeteer \<Rightarrow> string \<Rightarrow> string list \<Rightarrow> ('w, string) action" where
  "searchLoop pp suburbName [] =
     throwM (''Could not resolve listing URL for suburb: '' @ suburbName)"
| "searchLoop pp suburbName (sel # sels) =
     bindM (callM (Query sel) (pp_query pp sel)) (\<lambda>exists.
     if \<not> exists then searchLoop pp suburbName sels
     else
       bindM (catchM (searchWith pp suburbName sel) (\<lambda>e. retM None)) (\<lambda>found.
       case found of
         Some resolved \<Rightarrow> retM resolved
       | None \<Rightarrow> searchLoop pp suburbName sels))"

text \<open>
  \<open>findListingUrlForSuburb(page, suburb)\<close>. The field \<open>listingUrlForSuburb\<close> is read at
  the top; no statement of the method (or of the class) assigns it.
\<close>

definition findListingUrlForSuburb :: "'w puppeteer \<Rightarrow> string \<Rightarrow> ('w, string) action" where
  "findListingUrlForSuburb pp suburbName =
     bindM (getsM listingUrlForSuburb) (\<lambda>cached.
     if truthy cached then retM (orElse cached [])
     else
       bindM (catchM
                (bindM (callM (Goto BASE_URL) (pp_goto pp BASE_URL 15000)) (\<lambda>u.
                 takeScreenshot pp ''homepage-loaded''))
                (\<lambda>e. throwM ''Failed to load Property24 homepage'')) (\<lambda>u.
       bindM (closeCookieBanner pp) (\<lambda>u.
       searchLoop pp suburbName searchInputSelectors)))"

subsection \<open>The pagination walk\<close>

text \<open>Decimal digits of a number, for the template strings.\<close>

fun showNat :: "nat \<Rightarrow> string" where
  "showNat n =
     (if n < 10 then [char_of (48 + n)]
      else showNat (n div 10) @ [char_of (48 + n mod 10)])"

definition nextPageSelectors :: "string list" where
  "nextPageSelectors =
     [''a[rel=\"next\"]'',
      ''button:has-text(\"Next\")'',
      ''[class*=\"next\"] a'',
      ''a[aria-label*=\"next\"]'',
      ''a[title*=\"next\"]'']"

definition cardSelector :: string where
  "cardSelector = ''[data-test-id=\"property-card\"]''"

text \<open>The \<open>for\<close> loop of \<open>goToNextPage\<close> and the \<open>return false\<close> after it.\<close>

fun nextPageLoop :: "'w puppeteer \<Rightarrow> nat \<Rightarrow> string list \<Rightarrow> ('w, bool) action" where
  "nextPageLoop pp currentPageNum [] = retM False"
| "nextPageLoop pp currentPageNum (selector # selectors) =
     bindM (callM (Query selector) (pp_query pp selector)) (\<lambda>nextButton.
     if nextButton then
       bindM (callM (ClickHandle selector) (pp_clickHandle pp selector)) (\<lambda>u.
       bindM (catchM (callM WaitForNavigation (pp_waitForNavigation pp 10000))
                (\<lambda>e. catchM (callM (WaitForSelector cardSelector)
                                (pp_waitForSelector pp cardSelector 5000))
                        (\<lambda>e. retM ()))) (\<lambda>u.
       bindM (takeScreenshot pp (''pagination-page-'' @ showNat (currentPageNum + 1))) (\<lambda>u.
       retM True)))
     else nextPageLoop pp currentPageNum selectors)"

text \<open>\<open>goToNextPage\<close>: the loop inside \<open>try\<close>, any throw giving \<open>false\<close>.\<close>

definition goToNextPage :: "'w puppeteer \<Rightarrow> nat \<Rightarrow> ('w, bool) action" where
  "goToNextPage pp currentPageNum =
     catchM (nextPageLoop pp currentPageNum nextPageSelectors) (\<lambda>e. retM False)"

text \<open>\<open>extractProperties(page)\<close>: the markup is read with \<open>page.content()\<close>, outside any
  \<open>try\<close>, and parsed.\<close>

definition extractProperties ::
  "'w puppeteer \<Rightarrow> 'e cheerio \<Rightarrow> (string \<Rightarrow> jsdate) \<Rightarrow> ('w, property list) action" where
  "extractProperties pp ch engine =
     bindM (callM Content (pp_content pp)) (\<lambda>htmlContent.
     bindM (getsM opt_suburb) (\<lambda>sub.
     retM (extractPropertiesHtml ch engine sub htmlContent)))"

definition maxPages :: nat where
  "maxPages = 100"

text \<open>
  The \<open>while\<close> loop of \<open>extractPropertiesWithPagination\<close>, from the state of its
  variables \<open>pageNumber\<close> and \<open>allProperties\<close> at the loop test.
\<close>

function paginationLoop ::
  "'w puppeteer \<Rightarrow> 'e cheerio \<Rightarrow> (string \<Rightarrow> jsdate) \<Rightarrow> nat \<Rightarrow> property list
     \<Rightarrow> ('w, property list) action" where
  "paginationLoop pp ch engine pageNumber allProperties =
     (if pageNumber \<le> maxPages then
        bindM (extractProperties pp ch engine) (\<lambda>pageProperties.
        bindM (goToNextPage pp pageNumber) (\<lambda>nextPageFound.
        if \<not> nextPageFound then retM (allProperties @ pageProperties)
        else paginationLoop pp ch engine (pageNumber + 1) (allProperties @ pageProperties)))
      else retM allProperties)"
  by pat_completeness auto
termination
  by (relation "measure (\<lambda>(pp, ch, engine, pageNumber, allProperties). Suc maxPages - pageNumber)")
    auto

declare paginationLoop.simps [simp del]

definition extractPropertiesWithPagination ::
  "'w puppeteer \<Rightarrow> 'e cheerio \<Rightarrow> (string \<Rightarrow> jsdate) \<Rightarrow> ('w, property list) action" where
  "extractPropertiesWithPagination pp ch engine = paginationLoop pp ch engine 1 []"

subsection \<open>scrapeSuburb\<close>

record ScraperResult =
  success :: bool
  propertiesScraped :: nat
  propertiesSaved :: nat
  errors :: "string list"
  message :: string
  properties :: "property list option"

definition successResult :: "string \<Rightarrow> property list \<Rightarrow> ScraperResult" where
  "successResult sub props =
     \<lparr> success = True,
       propertiesScraped = length props,
       propertiesSaved = 0,
       errors = [],
       message = ''Successfully scraped '' @ showNat (length props) @ '' properties from '' @ sub,
       properties = Some props \<rparr>"

definition failureResult :: "string \<Rightarrow> ScraperResult" where
  "failureResult errorMessage =
     \<lparr> success = False,
       propertiesScraped = 0,
       propertiesSaved = 0,
       errors = [errorMessage],
       message = ''Failed to scrape properties: '' @ errorMessage,
       properties = Some [] \<rparr>"

text \<open>
  The inner \<open>try\<close> block of \<open>scrapeSuburb\<close>, entered with the resolved URL: the
  listing page is opened, the pages are walked, and the success object is returned.
\<close>

definition scrapeListing ::
  "'w puppeteer \<Rightarrow> 'e cheerio \<Rightarrow> (string \<Rightarrow> jsdate) \<Rightarrow> string \<Rightarrow> string
     \<Rightarrow> ('w, ScraperResult) action" where
  "scrapeListing pp ch engine sub searchUrl =
     bindM (getsM opt_timeout) (\<lambda>t.
     bindM (callM (Goto searchUrl)
              (pp_goto pp searchUrl (case t of None \<Rightarrow> 30000 | Some ms \<Rightarrow> ms))) (\<lambda>u.
     bindM (takeScreenshot pp ''listing-page-loaded'') (\<lambda>u.
     bindM (catchM (callM (WaitForSelector cardSelector)
                      (pp_waitForSelector pp cardSelector 10000))
              (\<lambda>e. retM ())) (\<lambda>u.
     bindM (extractPropertiesWithPagination pp ch engine) (\<lambda>props.
     bindM (takeScreenshot pp ''properties-extracted'') (\<lambda>u.
     retM (successResult sub props)))))))"

text \<open>
  \<open>scrapeSuburb()\<close>: the outer \<open>try\<close> with its \<open>catch\<close>, and inside it the \<open>try\<close> whose
  \<open>finally\<close> closes the page. \<open>errors\<close> is empty when the success object is built and
  holds the one message pushed by the \<open>catch\<close> otherwise.
\<close>

definition scrapeSuburb ::
  "'w puppeteer \<Rightarrow> 'e cheerio \<Rightarrow> (string \<Rightarrow> jsdate) \<Rightarrow> ('w, ScraperResult) action" where
  "scrapeSuburb pp ch engine =
     catchM
       (bindM (getsM browser) (\<lambda>b.
        bindM (if \<not> b then throwM ''Browser not initialized'' else retM ()) (\<lambda>u.
        bindM (callM NewPage (pp_newPage pp)) (\<lambda>u.
        bindM (getsM opt_suburb) (\<lambda>sub.
        bindM (findListingUrlForSuburb pp sub) (\<lambda>searchUrl.
        finallyM (scrapeListing pp ch engine sub searchUrl)
          (callM PageClose (pp_pageClose pp))))))))
       (\<lambda>errorMessage. retM (failureResult errorMessage))"

subsection \<open>A paged site, for concrete runs\<close>

text \<open>
  A site of result pages as a world for puppeteer: the world is the list of the markups
  of the current page and of the pages after it. The current page has a next-page
  control, matched by the first selector \<open>a[rel="next"]\<close>, exactly when a page follows
  it; clicking the control moves to the next page. The search box answers to the first
  search input, there is no cookie banner, and the search ends on a listing URL.
  What may vary from site to site is collected in \<open>quirks\<close>:
  \<^item> \<open>q_content\<close>: \<open>Some msg\<close> makes \<open>page.content()\<close> throw \<open>msg\<close>;
  \<^item> \<open>q_navWait\<close>, \<open>q_cardWait\<close>, \<open>q_screenshot\<close>, \<open>q_pageClose\<close>: how the waits, the
    screenshots and \<open>page.close()\<close> complete;
  \<^item> \<open>q_otherNext\<close>: how \<open>page.$\<close> answers the other four next-page selectors, \<open>None\<close>
    for \<open>null\<close> and \<open>Some msg\<close> for a throw (the second one is not a CSS selector).
\<close>

record quirks =
  q_content :: "string option"
  q_navWait :: "unit result"
  q_cardWait :: "unit result"
  q_screenshot :: "unit result"
  q_pageClose :: "unit result"
  q_otherNext :: "string option"

definition sitePuppeteer :: "quirks \<Rightarrow> (string list) puppeteer" where
  "sitePuppeteer q =
     \<lparr> pp_launch = (\<lambda>headless w. (Inr (), w)),
       pp_browserClose = (\<lambda>w. (Inr (), w)),
       pp_newPage = (\<lambda>w. (Inr (), w)),
       pp_pageClose = (\<lambda>w. (q_pageClose q, w)),
       pp_goto = (\<lambda>url timeout w. (Inr (), w)),
       pp_waitForSelector = (\<lambda>sel timeout w. (q_cardWait q, w)),
       pp_waitForNavigation = (\<lambda>timeout w. (q_navWait q, w)),
       pp_query = (\<lambda>sel w.
         if sel = ''a[rel=\"next\"]'' then (Inr (1 < length w), w)
         else if sel \<in> set nextPageSelectors then
           (case q_otherNext q of None \<Rightarrow> (Inr False, w) | Some msg \<Rightarrow> (Inl msg, w))
         else (Inr (sel = ''input[id*=\"token-input-AutoCompleteItems\"]''), w)),
       pp_clickHandle = (\<lambda>sel w. (Inr (), if sel = ''a[rel=\"next\"]'' then tl w else w)),
       pp_focus = (\<lambda>sel w. (Inr (), w)),
       pp_click = (\<lambda>sel w. (Inr (), w)),
       pp_type = (\<lambda>sel txt w. (Inr (), w)),
       pp_press = (\<lambda>key w. (Inr (), w)),
       pp_url = (\<lambda>w. ''https://www.property24.com/for-sale/sandton/109''),
       pp_content = (\<lambda>w.
         case q_content q of
           Some msg \<Rightarrow> (Inl msg, w)
         | None \<Rightarrow> (Inr (case w of [] \<Rightarrow> [] | h # hs \<Rightarrow> h), w)),
       pp_screenshot = (\<lambda>n label w. (q_screenshot q, w)) \<rparr>"

text \<open>A site where nothing goes wrong, and one where reading the markup fails.\<close>

definition calmSite :: quirks where
  "calmSite =
     \<lparr> q_content = None, q_navWait = Inr (), q_cardWait = Inr (), q_screenshot = Inr (),
       q_pageClose = Inr (), q_otherNext = None \<rparr>"

definition brokenContentSite :: quirks where
  "brokenContentSite =
     \<lparr> q_content = Some ''Execution context was destroyed'',
       q_navWait = Inr (), q_cardWait = Inr (), q_screenshot = Inr (),
       q_pageClose = Inr (), q_otherNext = None \<rparr>"

text \<open>A site whose every page shows a next-page control; every page has the markup
  \<open>page 2\<close> (no container).\<close>

definition endlessPuppeteer :: "unit puppeteer" where
  "endlessPuppeteer =
     \<lparr> pp_launch = (\<lambda>headless w. (Inr (), w)),
       pp_browserClose = (\<lambda>w. (Inr (), w)),
       pp_newPage = (\<lambda>w. (Inr (), w)),
       pp_pageClose = (\<lambda>w. (Inr (), w)),
       pp_goto = (\<lambda>url timeout w. (Inr (), w)),
       pp_waitForSelector = (\<lambda>sel timeout w. (Inr (), w)),
       pp_waitForNavigation = (\<lambda>timeout w. (Inr (), w)),
       pp_query = (\<lambda>sel w. (Inr True, w)),
       pp_clickHandle = (\<lambda>sel w. (Inr (), w)),
       pp_focus = (\<lambda>sel w. (Inr (), w)),
       pp_click = (\<lambda>sel w. (Inr (), w)),
       pp_type = (\<lambda>sel txt w. (Inr (), w)),
       pp_press = (\<lambda>key w. (Inr (), w)),
       pp_url = (\<lambda>w. ''https://www.property24.com/for-sale/sandton/109''),
       pp_content = (\<lambda>w. (Inr ''page 2'', w)),
       pp_screenshot = (\<lambda>n label w. (Inr (), w)) \<rparr>"

text \<open>A scraper for Sandton, constructed on a world and initialised.\<close>

definition sandtonOptions :: ScraperOptions where
  "sandtonOptions = \<lparr> o_suburb = ''Sandton'', o_headless = None, o_timeout = None \<rparr>"

definition readyScraper :: "'w puppeteer \<Rightarrow> 'w \<Rightarrow> 'w scraper" where
  "readyScraper pp w = snd (init pp (newScraper sandtonOptions w))"

text \<open>The number of \<open>page.content()\<close> calls in a trace: each call of
  \<open>extractProperties\<close> makes exactly one.\<close>

definition contentCalls :: "(call \<times> bool) list \<Rightarrow> nat" where
  "contentCalls t = length (filter (\<lambda>e. fst e = Content) t)"

subsection \<open>Relations between the state before and after a method\<close>

text \<open>\<open>steps R m\<close>: the state after \<open>m\<close> is related by \<open>R\<close> to the state before it,
  however \<open>m\<close> completes.\<close>

definition steps :: "('w scraper \<Rightarrow> 'w scraper \<Rightarrow> bool) \<Rightarrow> ('w, 'a) action \<Rightarrow> bool" where
  "steps R m = (\<forall>s. R s (snd (m s)))"

text \<open>
  A relation that every puppeteer call other than \<open>page.content()\<close> and \<open>page.close()\<close>
  obeys, and every change of the screenshot counter: it is reflexive and transitive
  and holds across such a step.
\<close>

definition obeys :: "('w scraper \<Rightarrow> 'w scraper \<Rightarrow> bool) \<Rightarrow> bool" where
  "obeys R =
     ((\<forall>s. R s s)
      \<and> (\<forall>a b c. R a b \<and> R b c \<longrightarrow> R a c)
      \<and> (\<forall>c s w ok. c \<noteq> Content \<and> c \<noteq> PageClose \<longrightarrow>
            R s (s\<lparr> world := w, trace := trace s @ [(c, ok)] \<rparr>))
      \<and> (\<forall>s n. R s (s\<lparr> screenshotCounter := n \<rparr>)))"

text \<open>The trace grows by calls other than \<open>page.content()\<close> and \<open>page.close()\<close>.\<close>

definition quietly :: "'w scraper \<Rightarrow> 'w scraper \<Rightarrow> bool" where
  "quietly s s' =
     (\<exists>t. trace s' = trace s @ t \<and> Content \<notin> fst ` set t \<and> PageClose \<notin> fst ` set t)"

text \<open>The cached listing URL is the same.\<close>

definition sameCache :: "'w scraper \<Rightarrow> 'w scraper \<Rightarrow> bool" where
  "sameCache s s' = (listingUrlForSuburb s' = listingUrlForSuburb s)"

section \<open>Properties of the field parsers\<close>

lemma js_split_nonempty: "js_split sep s \<noteq> []"
  by (induction s) (auto split: list.splits)

lemma length_js_split: "length (js_split sep s) = Suc (length (filter (\<lambda>c. c = sep) s))"
  by (induction s) (auto split: list.splits simp: js_split_nonempty)

lemma dropWhile_hd_not: "dropWhile P xs \<noteq> [] \<Longrightarrow> \<not> P (hd (dropWhile P xs))"
  by (metis hd_dropWhile)

lemma trim_cases:
  "trim s = [] \<or> (\<not> isSpace (hd (trim s)) \<and> \<not> isSpace (last (trim s)))"
proof (cases "trim s = []")
  case True
  then show ?thesis by simp
next
  case False
  let ?a = "dropWhile isSpace s"
  let ?b = "dropWhile isSpace (rev ?a)"
  from False have b: "?b \<noteq> []" by (simp add: trim_def)
  have a: "?a \<noteq> []"
  proof
    assume e: "?a = []"
    have "?b = []" unfolding e by simp
    with b show False by blast
  qed
  have l: "\<not> isSpace (hd ?b)" using b by (rule dropWhile_hd_not)
  have "last (trim s) = hd ?b" using b by (simp add: trim_def last_rev)
  with l have last_ok: "\<not> isSpace (last (trim s))" by simp
  have "hd (trim s) = last ?b" using b by (simp add: trim_def hd_rev)
  also have "\<dots> = last (rev ?a)"
  proof -
    have "rev ?a = takeWhile isSpace (rev ?a) @ ?b"
      by simp
    then show ?thesis using b by (metis last_appendR)
  qed
  also have "\<dots> = hd ?a" using a by (simp add: last_rev)
  finally have "hd (trim s) = hd ?a" .
  moreover have "\<not> isSpace (hd ?a)" using a by (rule dropWhile_hd_not)
  ultimately show ?thesis using last_ok by simp
qed

lemma trim_idem: "trim (trim s) = trim s"
proof (cases "trim s = []")
  case True
  have "trim [] = []" by (simp add: trim_def)
  with True show ?thesis by simp
next
  case False
  with trim_cases [of s] have h: "\<not> isSpace (hd (trim s))" and l: "\<not> isSpace (last (trim s))"
    by auto
  from False h have 1: "dropWhile isSpace (trim s) = trim s"
    by (cases "trim s") auto
  from False l have 2: "dropWhile isSpace (rev (trim s)) = rev (trim s)"
    by (cases "rev (trim s)") (auto simp: hd_rev [symmetric])
  show ?thesis
    unfolding trim_def [of "trim s"] 1 2 by simp
qed

lemma partOr_trimmed: "absentOrTrimmed (partOr (map trim ps) i)"
proof (cases "i < length ps \<and> trim (ps ! i) \<noteq> []")
  case True
  then show ?thesis
    using trim_cases [of "ps ! i"] trim_idem [of "ps ! i"]
    by (simp add: absentOrTrimmed_def partOr_def)
next
  case False
  then show ?thesis by (auto simp: absentOrTrimmed_def partOr_def)
qed

lemma trim_all_space:
  assumes "list_all isSpace s"
  shows "trim s = []"
proof -
  have e: "dropWhile isSpace s = []"
    using assms by (induction s) auto
  show ?thesis
    unfolding trim_def e by simp
qed

lemma addressField_parseAddress:
  "addressField (parseAddress t) i =
     (if i < 5 then partOr (map trim (js_split CHR '','' t)) i else None)"
proof -
  have "i < 5 \<Longrightarrow> i = 0 \<or> i = 1 \<or> i = 2 \<or> i = 3 \<or> i = 4"
    by arith
  then show ?thesis
    by (auto simp: addressField_def parseAddress_def Let_def)
qed

subsection \<open>C9: parseAddress is positional\<close>

text \<open>
  Claim C9. \<open>parseAddress\<close> segments its input positionally by commas: the input
  \<open>12 Oak St, Oakwood Estate, Sandton, Johannesburg, 2196\<close> gives street \<open>12 Oak St\<close>,
  estate \<open>Oakwood Estate\<close>, suburb \<open>Sandton\<close>, city \<open>Johannesburg\<close> and postal code
  \<open>2196\<close>; and for every input, a field whose position is at or past the number of
  comma-separated segments is absent.
\<close>

theorem parseAddress_positional:
  "parseAddress ''12 Oak St, Oakwood Estate, Sandton, Johannesburg, 2196'' =
     \<lparr> street = Some ''12 Oak St'', estate = Some ''Oakwood Estate'',
       suburb = Some ''Sandton'', city = Some ''Johannesburg'',
       postalCode = Some ''2196'' \<rparr>
   \<and> (\<forall>t i. length (js_split CHR '','' t) \<le> i \<longrightarrow> addressField (parseAddress t) i = None)"
proof (intro conjI allI impI)
  show "parseAddress ''12 Oak St, Oakwood Estate, Sandton, Johannesburg, 2196'' =
     \<lparr> street = Some ''12 Oak St'', estate = Some ''Oakwood Estate'',
       suburb = Some ''Sandton'', city = Some ''Johannesburg'',
       postalCode = Some ''2196'' \<rparr>"
    by (simp add: parseAddress_def partOr_def trim_def isSpace_def)
next
  fix t i
  assume "length (js_split CHR '','' t) \<le> i"
  then show "addressField (parseAddress t) i = None"
    by (simp add: addressField_parseAddress partOr_def)
qed

theorem parseAddress_positional_witness:
  "length (js_split CHR '','' ''12 Oak St, Sandton'') = 2
   \<and> parseAddress ''12 Oak St, Sandton'' =
     \<lparr> street = Some ''12 Oak St'', estate = Some ''Sandton'',
       suburb = None, city = None, postalCode = None \<rparr>"
proof -
  have n: "length (js_split CHR '','' ''12 Oak St, Sandton'') = 2"
    by simp
  have a: "\<forall>i\<ge>2. addressField (parseAddress ''12 Oak St, Sandton'') i = None"
    using parseAddress_positional n by simp
  from a have "addressField (parseAddress ''12 Oak St, Sandton'') 2 = None"
    and "addressField (parseAddress ''12 Oak St, Sandton'') 3 = None"
    and "addressField (parseAddress ''12 Oak St, Sandton'') 4 = None"
    by simp_all
  then have "suburb (parseAddress ''12 Oak St, Sandton'') = None"
    and "city (parseAddress ''12 Oak St, Sandton'') = None"
    and "postalCode (parseAddress ''12 Oak St, Sandton'') = None"
    by (simp_all add: addressField_def)
  moreover have "street (parseAddress ''12 Oak St, Sandton'') = Some ''12 Oak St''"
    and "estate (parseAddress ''12 Oak St, Sandton'') = Some ''Sandton''"
    by (simp_all add: parseAddress_def partOr_def trim_def isSpace_def)
  ultimately show ?thesis using n by simp
qed

subsection \<open>C10: every field is absent or a trimmed, non-empty string\<close>

text \<open>
  Claim C10. For every input string, each of the five fields \<open>parseAddress\<close> returns is
  either absent or a non-empty string without white space at either end; a segment that
  is empty or holds only white space (between two commas, or the whole input being
  empty) gives absence for its position, never the empty string.
\<close>

theorem parseAddress_absent_or_trimmed:
  "absentOrTrimmed (street (parseAddress t))
   \<and> absentOrTrimmed (estate (parseAddress t))
   \<and> absentOrTrimmed (suburb (parseAddress t))
   \<and> absentOrTrimmed (city (parseAddress t))
   \<and> absentOrTrimmed (postalCode (parseAddress t))
   \<and> (\<forall>i. list_all isSpace (js_split CHR '','' t ! i) \<longrightarrow> i < length (js_split CHR '','' t)
          \<longrightarrow> addressField (parseAddress t) i = None)
   \<and> (\<forall>i. addressField (parseAddress t) i \<noteq> Some [])"
proof -
  have f: "absentOrTrimmed (addressField (parseAddress t) i)" for i
    by (simp add: addressField_parseAddress partOr_trimmed) (simp add: absentOrTrimmed_def)
  have "absentOrTrimmed (street (parseAddress t))"
    using f [of 0] by (simp add: addressField_def)
  moreover have "absentOrTrimmed (estate (parseAddress t))"
    using f [of 1] by (simp add: addressField_def)
  moreover have "absentOrTrimmed (suburb (parseAddress t))"
    using f [of 2] by (simp add: addressField_def)
  moreover have "absentOrTrimmed (city (parseAddress t))"
    using f [of 3] by (simp add: addressField_def)
  moreover have "absentOrTrimmed (postalCode (parseAddress t))"
    using f [of 4] by (simp add: addressField_def)
  moreover have "addressField (parseAddress t) i = None"
    if "list_all isSpace (js_split CHR '','' t ! i)" and "i < length (js_split CHR '','' t)" for i
    using that by (simp add: addressField_parseAddress partOr_def trim_all_space)
  moreover have "addressField (parseAddress t) i \<noteq> Some []" for i
    using f [of i] by (auto simp: absentOrTrimmed_def)
  ultimately show ?thesis by blast
qed

theorem parseAddress_absent_or_trimmed_witness:
  "list_all isSpace (js_split CHR '','' ''a,, ,b'' ! 1)
   \<and> list_all isSpace (js_split CHR '','' ''a,, ,b'' ! 2)
   \<and> parseAddress ''a,, ,b'' =
       \<lparr> street = Some ''a'', estate = None, suburb = None, city = Some ''b'',
         postalCode = None \<rparr>
   \<and> parseAddress '''' =
       \<lparr> street = None, estate = None, suburb = None, city = None, postalCode = None \<rparr>"
proof -
  have s1: "list_all isSpace (js_split CHR '','' ''a,, ,b'' ! 1)"
    and s2: "list_all isSpace (js_split CHR '','' ''a,, ,b'' ! 2)"
    and n: "length (js_split CHR '','' ''a,, ,b'') = 4"
    by (simp_all add: isSpace_def)
  have "addressField (parseAddress ''a,, ,b'') 1 = None"
    and "addressField (parseAddress ''a,, ,b'') 2 = None"
    using parseAddress_absent_or_trimmed [of "''a,, ,b''"] s1 s2 n by simp_all
  then have "estate (parseAddress ''a,, ,b'') = None"
    and "suburb (parseAddress ''a,, ,b'') = None"
    by (simp_all add: addressField_def)
  moreover have "street (parseAddress ''a,, ,b'') = Some ''a''"
    and "city (parseAddress ''a,, ,b'') = Some ''b''"
    and "postalCode (parseAddress ''a,, ,b'') = None"
    by (simp_all add: parseAddress_def partOr_def trim_def isSpace_def)
  moreover have "parseAddress '''' =
       \<lparr> street = None, estate = None, suburb = None, city = None, postalCode = None \<rparr>"
    by (simp add: parseAddress_def partOr_def trim_def)
  ultimately show ?thesis using s1 s2 by simp
qed

section \<open>Properties of the record extractor\<close>

lemma startsWith_iff: "startsWith s p \<longleftrightarrow> (\<exists>b. s = p @ b)"
proof
  assume "startsWith s p"
  then have t: "take (length p) s = p"
    by (simp only: startsWith_def)
  have "take (length p) s @ drop (length p) s = s"
    by (rule append_take_drop_id)
  then have "s = p @ drop (length p) s"
    by (simp only: t)
  then show "\<exists>b. s = p @ b" ..
next
  assume "\<exists>b. s = p @ b"
  then obtain b where "s = p @ b" ..
  then show "startsWith s p"
    by (simp add: startsWith_def)
qed

lemma js_includes_iff: "js_includes s p \<longleftrightarrow> (\<exists>a b. s = a @ p @ b)"
proof (induction s)
  case Nil
  show ?case by simp
next
  case (Cons c cs)
  show ?case
  proof
    assume "js_includes (c # cs) p"
    then have "startsWith (c # cs) p \<or> js_includes cs p"
      by (simp only: js_includes.simps)
    then show "\<exists>a b. c # cs = a @ p @ b"
    proof
      assume "startsWith (c # cs) p"
      then obtain b where "c # cs = p @ b"
        using startsWith_iff by blast
      then have "c # cs = [] @ p @ b" by simp
      then show ?thesis by blast
    next
      assume "js_includes cs p"
      with Cons.IH obtain a b where "cs = a @ p @ b" by blast
      then have "c # cs = (c # a) @ p @ b" by simp
      then show ?thesis by blast
    qed
  next
    assume "\<exists>a b. c # cs = a @ p @ b"
    then obtain a b where ab: "c # cs = a @ p @ b" by blast
    show "js_includes (c # cs) p"
    proof (cases a)
      case Nil
      with ab have "c # cs = p @ b" by simp
      then have "startsWith (c # cs) p"
        using startsWith_iff by blast
      then show ?thesis by (simp only: js_includes.simps) simp
    next
      case (Cons x a')
      with ab have "cs = a' @ p @ b" by simp
      with Cons.IH have "js_includes cs p" by blast
      then show ?thesis by (simp only: js_includes.simps) simp
    qed
  qed
qed

lemma truthy_Some: "truthy v \<longleftrightarrow> (\<exists>u. v = Some u \<and> u \<noteq> [])"
  by (cases v) (auto simp: truthy_def)




lemma extractContainer_None:
  "\<not> truthy (propertyUrlOf ch c) \<Longrightarrow> extractContainer ch engine sub c = None"
  by (auto simp: extractContainer_def truthy_def split: option.splits)

lemma extractContainer_Some:
  assumes "propertyUrlOf ch c = Some u" and "u \<noteq> []"
  shows "\<exists>r. extractContainer ch engine sub c = Some r \<and> property_url r = fullUrlOf u
           \<and> status r = statusOfText (statusElementText ch c)"
  using assms by (simp add: extractContainer_def Let_def)

lemma extractContainer_url:
  assumes "extractContainer ch engine sub c = Some r"
  shows "\<exists>u. propertyUrlOf ch c = Some u \<and> u \<noteq> [] \<and> property_url r = fullUrlOf u
           \<and> status r = statusOfText (statusElementText ch c)"
proof (cases "truthy (propertyUrlOf ch c)")
  case False
  with extractContainer_None [of ch c engine sub] assms show ?thesis by simp
next
  case True
  then obtain u where u: "propertyUrlOf ch c = Some u" "u \<noteq> []"
    by (auto simp: truthy_Some)
  from extractContainer_Some [OF u, of engine sub] assms u show ?thesis by auto
qed

lemma extractPropertiesHtml_map_filter:
  "extractPropertiesHtml ch engine sub html =
     List.map_filter (extractContainer ch engine sub) (ch_select ch html containerSelector)"
  by (simp add: extractPropertiesHtml_def Let_def)

lemma set_map_filter: "r \<in> set (List.map_filter f xs) \<longleftrightarrow> (\<exists>x \<in> set xs. f x = Some r)"
  by (induction xs) (auto simp: split: option.splits)


subsection \<open>C5: listing links\<close>



text \<open>Facts for evaluating the string functions and the parsers on literals.\<close>

lemmas string_eval =
  toLowerCase_def lowerChar_def char_of_def bit_Suc_0_iff startsWith_def isSpace_def
  isDigit_def

lemmas number_eval =
  parseFloat_def parseInt10_def splitSign_def decimalValue_def digitVal_def exponentOf_def
  scale10_def

lemmas price_eval =
  parsePrice_def stripTotal_def stripPerSqm_def isPriceChar_def matchPerSqmAt_def Let_def

lemmas date_eval =
  parseDate_def matchDMYAt_def dmyWith_def digitsAt_def isDateSep_def newDate_def
  isoDateOnly_def Let_def

lemmas extract_eval =
  extractPropertiesHtml_def extractContainer_def propertyUrlOf_def truthy_def selAttr_def
  selText_def selFirst_def containerSelector_def statusElementText_def isStatusText_def
  isPropertyTypeText_def statusOfText_def fullUrlOf_def orElse_def extractNumber_def Let_def

subsection \<open>C6: status classification\<close>

text \<open>
  Claim C6. For every status text: a text that contains \<open>sold\<close> in any mix of cases is
  classified as sold, also when it contains \<open>offer\<close> as well; a text that contains
  \<open>offer\<close> and not \<open>sold\<close> is classified as under offer; a text with neither leaves the
  status absent. The status of an emitted record is this classification of the text of
  its status element, and no input makes the extractor produce \<open>no_offer\<close>.
\<close>

theorem status_classification:
  "((\<exists>a b. toLowerCase t = a @ ''sold'' @ b) \<longrightarrow> statusOfText t = Some Sold)
   \<and> ((\<exists>a b. toLowerCase t = a @ ''offer'' @ b) \<and> \<not> (\<exists>a b. toLowerCase t = a @ ''sold'' @ b)
        \<longrightarrow> statusOfText t = Some Under_offer)
   \<and> (\<not> (\<exists>a b. toLowerCase t = a @ ''offer'' @ b) \<and> \<not> (\<exists>a b. toLowerCase t = a @ ''sold'' @ b)
        \<longrightarrow> statusOfText t = None)
   \<and> statusOfText t \<noteq> Some No_offer
   \<and> (\<forall>c r. extractContainer ch engine sub c = Some r \<longrightarrow>
          status r = statusOfText (statusElementText ch c))
   \<and> (\<forall>r \<in> set (extractPropertiesHtml ch engine sub html). status r \<noteq> Some No_offer)"
proof -
  have no: "statusOfText x \<noteq> Some No_offer" for x
    by (simp add: statusOfText_def Let_def)
  have st: "status r = statusOfText (statusElementText ch c)"
    if "extractContainer ch engine sub c = Some r" for c r
  proof -
    have "\<exists>u. propertyUrlOf ch c = Some u \<and> u \<noteq> [] \<and> property_url r = fullUrlOf u
           \<and> status r = statusOfText (statusElementText ch c)"
      using that by (rule extractContainer_url)
    then show ?thesis by (elim exE conjE)
  qed
  have all: "status r \<noteq> Some No_offer"
    if "r \<in> set (extractPropertiesHtml ch engine sub html)" for r
  proof -
    from that have "r \<in> set (List.map_filter (extractContainer ch engine sub)
                    (ch_select ch html containerSelector))"
      by (simp only: extractPropertiesHtml_map_filter)
    then have "\<exists>c \<in> set (ch_select ch html containerSelector).
        extractContainer ch engine sub c = Some r"
      by (simp only: set_map_filter)
    then obtain c where "extractContainer ch engine sub c = Some r" ..
    then have "status r = statusOfText (statusElementText ch c)" by (rule st)
    then show ?thesis by (simp only: no) simp
  qed
  have 1: "(\<exists>a b. toLowerCase t = a @ ''sold'' @ b) \<longrightarrow> statusOfText t = Some Sold"
    by (simp only: js_includes_iff [symmetric]) (simp add: statusOfText_def Let_def)
  have 2: "(\<exists>a b. toLowerCase t = a @ ''offer'' @ b) \<and> \<not> (\<exists>a b. toLowerCase t = a @ ''sold'' @ b)
        \<longrightarrow> statusOfText t = Some Under_offer"
    by (simp only: js_includes_iff [symmetric]) (simp add: statusOfText_def Let_def)
  have 3: "\<not> (\<exists>a b. toLowerCase t = a @ ''offer'' @ b) \<and> \<not> (\<exists>a b. toLowerCase t = a @ ''sold'' @ b)
        \<longrightarrow> statusOfText t = None"
    by (simp only: js_includes_iff [symmetric]) (simp add: statusOfText_def Let_def)
  from 1 2 3 no [of t] st all show ?thesis
    by (intro conjI allI ballI impI) (assumption | erule (1) mp | rule st all no)+
qed

theorem status_classification_witness:
  "toLowerCase ''SOLD - offer accepted'' = [] @ ''sold'' @ '' - offer accepted''
   \<and> statusOfText ''SOLD - offer accepted'' = Some Sold
   \<and> statusOfText ''Under Offer'' = Some Under_offer
   \<and> statusOfText ''Listed'' = None
   \<and> map status (extractPropertiesHtml demoCheerio (\<lambda>s. InvalidDate) ''Sandton'' ''page 1'') =
       [Some Sold, Some Under_offer]"
proof -
  have l1: "toLowerCase ''SOLD - offer accepted'' = [] @ ''sold'' @ '' - offer accepted''"
    by (simp add: string_eval)
  then have e1: "\<exists>a b. toLowerCase ''SOLD - offer accepted'' = a @ ''sold'' @ b"
    by (intro exI)
  have e2: "\<exists>a b. toLowerCase ''Under Offer'' = a @ ''offer'' @ b"
    by (simp only: js_includes_iff [symmetric]) (simp add: string_eval)
  have n2: "\<not> (\<exists>a b. toLowerCase ''Under Offer'' = a @ ''sold'' @ b)"
    by (simp only: js_includes_iff [symmetric]) (simp add: string_eval)
  have n3: "\<not> (\<exists>a b. toLowerCase ''Listed'' = a @ ''offer'' @ b)"
    and n4: "\<not> (\<exists>a b. toLowerCase ''Listed'' = a @ ''sold'' @ b)"
    by (simp_all only: js_includes_iff [symmetric]) (simp_all add: string_eval)
  have s1: "statusOfText ''SOLD - offer accepted'' = Some Sold"
    using status_classification [of "''SOLD - offer accepted''", THEN conjunct1] e1
    by (rule mp)
  have s2: "statusOfText ''Under Offer'' = Some Under_offer"
    using status_classification [of "''Under Offer''", THEN conjunct2, THEN conjunct1]
      conjI [OF e2 n2]
    by (rule mp)
  have s3: "statusOfText ''Listed'' = None"
    using status_classification [of "''Listed''", THEN conjunct2, THEN conjunct2, THEN conjunct1]
      conjI [OF n3 n4]
    by (rule mp)
  have "map status (extractPropertiesHtml demoCheerio (\<lambda>s. InvalidDate) ''Sandton'' ''page 1'') =
       [Some Sold, Some Under_offer]"
    by (simp add: extract_eval demoCheerio_def string_eval)
  with l1 s1 s2 s3 show ?thesis by (intro conjI)
qed

subsection \<open>C7: parsePrice\<close>

lemma parsePrice_total_example:
  "parsePrice ''R 1,250,000'' = \<lparr> totalPrice = Some (Finite 1250000), pricePerSqm = None \<rparr>"
  by (simp add: price_eval number_eval string_eval)

lemma parsePrice_per_sqm_example:
  "parsePrice (''R 1,250,000 R 15,000 per m'' @ [CHR 0xB2]) =
     \<lparr> totalPrice = Some (Finite 1250000), pricePerSqm = Some (Finite 15000) \<rparr>"
  by (simp add: price_eval number_eval string_eval)

lemma matchTotalPrice_no_R: "CHR ''R'' \<notin> set t \<Longrightarrow> matchTotalPrice t = None"
  by (induction t) auto

lemma lowerChar_ascii_small:
  assumes "lowerChar c = d" and "(of_char d :: nat) \<in> {109, 114}"
  shows "c = d \<or> (of_char c :: nat) + 32 = of_char d"
proof (cases "lowerChar c = c")
  case True
  with assms show ?thesis by simp
next
  case False
  define n where "n = (of_char c :: nat)"
  let ?P = "(65 \<le> n \<and> n \<le> 90) \<or> (192 \<le> n \<and> n \<le> 222 \<and> n \<noteq> 215)"
  have d: "lowerChar c = (if ?P then char_of (n + 32) else c)"
    by (simp add: lowerChar_def Let_def n_def)
  have P: ?P
  proof (rule ccontr)
    assume "\<not> ?P"
    with d have "lowerChar c = c" by simp
    with False show False ..
  qed
  from P d have lc: "lowerChar c = char_of (n + 32)" by simp
  from P have r: "n + 32 < 256" by linarith
  from assms(1) lc have "(of_char (char_of (n + 32) :: char) :: nat) = of_char d"
    by simp
  then have "(n + 32) mod 256 = of_char d"
    by simp
  with r have "n + 32 = of_char d" by simp
  then show ?thesis by (simp add: n_def)
qed

lemma lowerChar_is_r:
  assumes "lowerChar c = CHR ''r''"
  shows "c = CHR ''r'' \<or> c = CHR ''R''"
proof -
  have "c = CHR ''r'' \<or> (of_char c :: nat) + 32 = of_char (CHR ''r'')"
    using assms by (rule lowerChar_ascii_small) simp
  then show ?thesis
  proof
    assume "c = CHR ''r''"
    then show ?thesis ..
  next
    assume "(of_char c :: nat) + 32 = of_char (CHR ''r'')"
    then have "(of_char c :: nat) = of_char (CHR ''R'')" by simp
    then have "c = CHR ''R''" by (simp only: of_char_eq_iff)
    then show ?thesis ..
  qed
qed

lemma matchPricePerSqm_no_r:
  "CHR ''R'' \<notin> set t \<Longrightarrow> CHR ''r'' \<notin> set t \<Longrightarrow> matchPricePerSqm t = None"
proof (induction t)
  case Nil
  show ?case by simp
next
  case (Cons c cs)
  then have c: "c \<noteq> CHR ''R''" "c \<noteq> CHR ''r''" by auto
  have "lowerChar c \<noteq> CHR ''r''"
    using lowerChar_is_r [of c] c by blast
  then have "matchPerSqmAt (c # cs) = None"
    by (simp add: matchPerSqmAt_def Let_def)
  with Cons show ?case by simp
qed

lemma parsePrice_no_marker:
  "CHR ''R'' \<notin> set t \<Longrightarrow> CHR ''r'' \<notin> set t \<Longrightarrow>
     parsePrice t = \<lparr> totalPrice = None, pricePerSqm = None \<rparr>"
  by (simp add: parsePrice_def matchTotalPrice_no_R matchPricePerSqm_no_r)

lemma matchPricePerSqm_present:
  "matchPricePerSqm t = Some m \<Longrightarrow> pricePerSqm (parsePrice t) = Some (parseFloat (stripPerSqm m))"
  by (simp add: parsePrice_def)

text \<open>
  Claim C7 says that an input without a currency marker gives both fields absent. The
  total-price pattern asks for a capital \<open>R\<close>, but the per-area pattern carries the flag
  \<open>i\<close>, so there any \<open>r\<close> followed by a number and \<open>per m\<^sup>2\<close> passes for the currency
  symbol: the text \<open>offer 950 per m\<^sup>2\<close> holds no \<open>R\<close>, its total price is absent, and
  its price per area is 950 all the same.
\<close>

theorem parsePrice_small_r_is_marker:
  "CHR ''R'' \<notin> set (''offer 950 per m'' @ [CHR 0xB2])
   \<and> parsePrice (''offer 950 per m'' @ [CHR 0xB2]) =
       \<lparr> totalPrice = None, pricePerSqm = Some (Finite 950) \<rparr>"
  by (simp add: price_eval number_eval string_eval)

subsection \<open>C8: parseDate\<close>

lemma parseDate_iso_invalid_absent:
  "CHR ''T'' \<in> set t \<Longrightarrow> newDate engine t = InvalidDate \<Longrightarrow> matchDMY t = None \<Longrightarrow>
     parseDate engine (Some t) = None"
  by (auto simp: parseDate_def)

lemma parseDate_absent_input:
  "parseDate engine None = None \<and> parseDate engine (Some []) = None"
  by (simp add: parseDate_def)

text \<open>
  Claim C8 says that every parse failure gives an absent date and that \<open>parseDate\<close> never
  returns an invalid date. The timestamp branch does test the time value for \<open>NaN\<close>; the
  day/month/year branch returns \<open>new Date\<close> of the rearranged text untested. For
  \<open>99/99/2024\<close> the rearranged text is \<open>2024-99-99\<close>, whose month and day are out of
  bounds, so whatever the engine, the result is the invalid date and not \<open>undefined\<close>.
\<close>

theorem parseDate_returns_invalid_date:
  "matchDMY ''99/99/2024'' = Some (''99'', ''99'', ''2024'')
   \<and> parseDate engine (Some ''99/99/2024'') = Some InvalidDate"
  by (simp add: date_eval string_eval number_eval)

section \<open>Properties of the scraper's methods\<close>

subsection \<open>The combinators\<close>

lemma bindM_Inl: "m s = (Inl e, s1) \<Longrightarrow> bindM m f s = (Inl e, s1)"
  by (simp add: bindM_def)

lemma bindM_Inr: "m s = (Inr x, s1) \<Longrightarrow> bindM m f s = f x s1"
  by (simp add: bindM_def)

lemma catchM_Inl: "m s = (Inl e, s1) \<Longrightarrow> catchM m h s = h e s1"
  by (simp add: catchM_def)

lemma catchM_Inr: "m s = (Inr x, s1) \<Longrightarrow> catchM m h s = (Inr x, s1)"
  by (simp add: catchM_def)

lemma result_cases:
  obtains (Threw) e s1 where "m s = (Inl e, s1)" | (Returned) x s1 where "m s = (Inr x, s1)"
proof (cases "m s")
  case (Pair r s1)
  then show ?thesis
    using that by (cases r) auto
qed

text \<open>A \<open>catch\<close> whose handler returns makes the whole return.\<close>

lemma catchM_returns:
  assumes "\<And>e s1. \<exists>x s2. h e s1 = (Inr x, s2)"
  shows "\<exists>x s'. catchM m h s = (Inr x, s')"
proof (cases rule: result_cases [of m s])
  case (Threw e s1)
  then show ?thesis using assms [of e s1] by (simp add: catchM_Inl)
next
  case (Returned x s1)
  then show ?thesis by (simp add: catchM_Inr)
qed

lemma callM_eq:
  "callM c op s =
     (fst (op (world s)),
      s\<lparr> world := snd (op (world s)), trace := trace s @ [(c, \<not> isl (fst (op (world s))))] \<rparr>)"
  by (simp add: callM_def split: prod.splits)

subsection \<open>Relations kept by the methods\<close>

named_theorems steps_rules

lemma obeys_refl: "obeys R \<Longrightarrow> R s s"
  unfolding obeys_def by (elim conjE) (erule allE)

lemma obeys_trans: "obeys R \<Longrightarrow> R a b \<Longrightarrow> R b c \<Longrightarrow> R a c"
  unfolding obeys_def by (elim conjE) (erule_tac x = a in allE, erule_tac x = b in allE,
    erule_tac x = c in allE, erule impE, erule (1) conjI, assumption)

lemma obeys_call:
  "obeys R \<Longrightarrow> c \<noteq> Content \<Longrightarrow> c \<noteq> PageClose \<Longrightarrow>
     R s (s\<lparr> world := w, trace := trace s @ [(c, ok)] \<rparr>)"
  unfolding obeys_def
  by (elim conjE) (erule_tac x = c in allE, erule_tac x = s in allE, erule_tac x = w in allE,
    erule_tac x = ok in allE, erule impE, erule (1) conjI, assumption)

lemma obeys_counter: "obeys R \<Longrightarrow> R s (s\<lparr> screenshotCounter := n \<rparr>)"
  unfolding obeys_def
  by (elim conjE) (erule_tac x = s in allE, erule_tac x = s in allE, erule_tac x = n in allE,
    assumption)

lemma steps_retM [steps_rules]: "obeys R \<Longrightarrow> steps R (retM x)"
  by (simp add: steps_def obeys_refl retM_def)

lemma steps_throwM [steps_rules]: "obeys R \<Longrightarrow> steps R (throwM e)"
  by (simp add: steps_def obeys_refl throwM_def)

lemma steps_getsM [steps_rules]: "obeys R \<Longrightarrow> steps R (getsM g)"
  by (simp add: steps_def obeys_refl getsM_def)

lemma steps_bindM [steps_rules]:
  assumes R: "obeys R" and m: "steps R m" and f: "\<And>x. steps R (f x)"
  shows "steps R (bindM m f)"
  unfolding steps_def
proof
  fix s
  from m have ms: "R s (snd (m s))" by (simp add: steps_def)
  show "R s (snd (bindM m f s))"
  proof (cases rule: result_cases [of m s])
    case (Threw e s1)
    with ms show ?thesis by (simp add: bindM_Inl)
  next
    case (Returned x s1)
    from f [of x] have "R s1 (snd (f x s1))" by (simp add: steps_def)
    with ms Returned have "R s (snd (f x s1))"
      using obeys_trans [OF R, of s s1 "snd (f x s1)"] by simp
    with Returned show ?thesis by (simp add: bindM_Inr)
  qed
qed

lemma steps_catchM [steps_rules]:
  assumes R: "obeys R" and m: "steps R m" and h: "\<And>e. steps R (h e)"
  shows "steps R (catchM m h)"
  unfolding steps_def
proof
  fix s
  from m have ms: "R s (snd (m s))" by (simp add: steps_def)
  show "R s (snd (catchM m h s))"
  proof (cases rule: result_cases [of m s])
    case (Threw e s1)
    from h [of e] have "R s1 (snd (h e s1))" by (simp add: steps_def)
    with ms Threw have "R s (snd (h e s1))"
      using obeys_trans [OF R, of s s1 "snd (h e s1)"] by simp
    with Threw show ?thesis by (simp add: catchM_Inl)
  next
    case (Returned x s1)
    with ms show ?thesis by (simp add: catchM_Inr)
  qed
qed

lemma steps_finallyM [steps_rules]:
  assumes R: "obeys R" and m: "steps R m" and c: "steps R c"
  shows "steps R (finallyM m c)"
  unfolding steps_def
proof
  fix s
  from m have ms: "R s (snd (m s))" by (simp add: steps_def)
  from c have "R (snd (m s)) (snd (c (snd (m s))))" by (simp add: steps_def)
  with ms have "R s (snd (c (snd (m s))))"
    by (rule obeys_trans [OF R])
  moreover have "snd (finallyM m c s) = snd (c (snd (m s)))"
  proof (cases "m s")
    case (Pair r s1)
    show ?thesis
    proof (cases rule: result_cases [of c s1])
      case (Threw e s2)
      with Pair show ?thesis by (simp add: finallyM_def)
    next
      case (Returned u s2)
      with Pair show ?thesis by (simp add: finallyM_def)
    qed
  qed
  ultimately show "R s (snd (finallyM m c s))" by (simp only:)
qed

lemma steps_callM [steps_rules]:
  "obeys R \<Longrightarrow> c \<noteq> Content \<Longrightarrow> c \<noteq> PageClose \<Longrightarrow> steps R (callM c op)"
  by (simp add: steps_def obeys_call callM_eq)

lemma steps_counter [steps_rules]:
  "obeys R \<Longrightarrow> steps R (modifyM (\<lambda>s. s\<lparr> screenshotCounter := g s \<rparr>))"
  by (simp add: steps_def obeys_counter modifyM_def)

lemma steps_if [steps_rules]:
  "steps R a \<Longrightarrow> steps R b \<Longrightarrow> steps R (if c then a else b)"
  by simp

lemma steps_takeScreenshot [steps_rules]: "obeys R \<Longrightarrow> steps R (takeScreenshot pp label)"
  unfolding takeScreenshot_def by (intro steps_rules) simp_all

lemma steps_closeCookieBanner [steps_rules]: "obeys R \<Longrightarrow> steps R (closeCookieBanner pp)"
  unfolding closeCookieBanner_def by (intro steps_rules) simp_all

lemma steps_searchWith [steps_rules]: "obeys R \<Longrightarrow> steps R (searchWith pp sub sel)"
  unfolding searchWith_def by (intro steps_rules) simp_all

lemma steps_searchLoop [steps_rules]: "obeys R \<Longrightarrow> steps R (searchLoop pp sub sels)"
proof (induction sels)
  case Nil
  then show ?case by (simp add: steps_rules)
next
  case (Cons sel sels)
  have "steps R (case found of Some resolved \<Rightarrow> retM resolved | None \<Rightarrow> searchLoop pp sub sels)"
    for found
    using Cons by (cases found) (simp_all add: steps_rules)
  with Cons show ?case
    unfolding searchLoop.simps by (intro steps_rules) simp_all
qed

lemma steps_findListingUrlForSuburb [steps_rules]:
  "obeys R \<Longrightarrow> steps R (findListingUrlForSuburb pp sub)"
  unfolding findListingUrlForSuburb_def by (intro steps_rules) simp_all

lemma steps_nextPageLoop [steps_rules]: "obeys R \<Longrightarrow> steps R (nextPageLoop pp n sels)"
proof (induction sels)
  case Nil
  then show ?case by (simp add: steps_rules)
next
  case (Cons sel sels)
  then show ?case
    unfolding nextPageLoop.simps by (intro steps_rules) simp_all
qed

lemma steps_goToNextPage [steps_rules]: "obeys R \<Longrightarrow> steps R (goToNextPage pp n)"
  unfolding goToNextPage_def by (intro steps_rules) simp_all

lemma obeys_sameCache: "obeys sameCache"
  by (simp add: obeys_def sameCache_def)

lemma obeys_quietly: "obeys quietly"
  unfolding obeys_def
proof (intro conjI allI impI)
  fix s :: "'a scraper"
  show "quietly s s" by (simp add: quietly_def)
next
  fix a b c :: "'a scraper"
  assume "quietly a b \<and> quietly b c"
  then obtain t1 t2 where "trace b = trace a @ t1" "trace c = trace b @ t2"
    and "Content \<notin> fst ` set t1" "PageClose \<notin> fst ` set t1"
    and "Content \<notin> fst ` set t2" "PageClose \<notin> fst ` set t2"
    unfolding quietly_def by blast
  then have "trace c = trace a @ (t1 @ t2) \<and> Content \<notin> fst ` set (t1 @ t2)
      \<and> PageClose \<notin> fst ` set (t1 @ t2)"
    by auto
  then show "quietly a c" unfolding quietly_def by blast
next
  fix c :: call and s :: "'a scraper" and w :: 'a and ok :: bool
  assume "c \<noteq> Content \<and> c \<noteq> PageClose"
  then show "quietly s (s\<lparr>world := w, trace := trace s @ [(c, ok)]\<rparr>)"
    unfolding quietly_def by (intro exI [of _ "[(c, ok)]"]) auto
next
  fix s :: "'a scraper" and n
  show "quietly s (s\<lparr>screenshotCounter := n\<rparr>)" by (simp add: quietly_def)
qed

subsection \<open>Methods that never throw\<close>

lemma takeScreenshot_returns: "\<exists>s'. takeScreenshot pp label s = (Inr (), s')"
proof -
  have "\<exists>x s'. takeScreenshot pp label s = (Inr x, s')"
    unfolding takeScreenshot_def by (rule catchM_returns) (simp add: retM_def)
  then show ?thesis by simp
qed

lemma goToNextPage_returns: "\<exists>b s'. goToNextPage pp n s = (Inr b, s')"
  unfolding goToNextPage_def
  by (rule catchM_returns) (simp add: retM_def, rule exI [of _ False], simp)

subsection \<open>The pagination walk, one round at a time\<close>

lemma extractProperties_eq:
  "extractProperties pp ch engine s =
     (case fst (pp_content pp (world s)) of
        Inl e \<Rightarrow>
          (Inl e, s\<lparr> world := snd (pp_content pp (world s)),
                     trace := trace s @ [(Content, False)] \<rparr>)
      | Inr html \<Rightarrow>
          (Inr (extractPropertiesHtml ch engine (opt_suburb s) html),
           s\<lparr> world := snd (pp_content pp (world s)),
              trace := trace s @ [(Content, True)] \<rparr>))"
  by (simp add: extractProperties_def bindM_def callM_eq getsM_def retM_def split: sum.splits)

text \<open>The state after a successful \<open>page.content()\<close>.\<close>

definition afterContent :: "'w puppeteer \<Rightarrow> 'w scraper \<Rightarrow> 'w scraper" where
  "afterContent pp s =
     s\<lparr> world := snd (pp_content pp (world s)), trace := trace s @ [(Content, True)] \<rparr>"

lemma paginationLoop_done:
  "\<not> n \<le> maxPages \<Longrightarrow> paginationLoop pp ch engine n acc s = (Inr acc, s)"
  by (subst paginationLoop.simps) (simp add: retM_def)

lemma paginationLoop_throw:
  assumes "n \<le> maxPages" and "fst (pp_content pp (world s)) = Inl e"
  shows "paginationLoop pp ch engine n acc s =
     (Inl e, s\<lparr> world := snd (pp_content pp (world s)),
                trace := trace s @ [(Content, False)] \<rparr>)"
  using assms
  by (subst paginationLoop.simps) (simp add: bindM_def extractProperties_eq)

lemma paginationLoop_last:
  assumes "n \<le> maxPages" and "fst (pp_content pp (world s)) = Inr html"
    and "goToNextPage pp n (afterContent pp s) = (Inr False, s2)"
  shows "paginationLoop pp ch engine n acc s =
     (Inr (acc @ extractPropertiesHtml ch engine (opt_suburb s) html), s2)"
  using assms
  by (subst paginationLoop.simps)
    (simp add: bindM_def extractProperties_eq afterContent_def retM_def)

lemma paginationLoop_next:
  assumes "n \<le> maxPages" and "fst (pp_content pp (world s)) = Inr html"
    and "goToNextPage pp n (afterContent pp s) = (Inr True, s2)"
  shows "paginationLoop pp ch engine n acc s =
     paginationLoop pp ch engine (n + 1)
       (acc @ extractPropertiesHtml ch engine (opt_suburb s) html) s2"
  using assms
  by (subst paginationLoop.simps)
    (simp add: bindM_def extractProperties_eq afterContent_def retM_def)

lemma goToNextPage_quietly: "quietly s (snd (goToNextPage pp n s))"
  using steps_goToNextPage [OF obeys_quietly, of pp n] by (simp add: steps_def)

lemma contentCalls_append: "contentCalls (t1 @ t2) = contentCalls t1 + contentCalls t2"
  by (simp add: contentCalls_def)

lemma contentCalls_quiet: "Content \<notin> fst ` set t \<Longrightarrow> contentCalls t = 0"
  by (induction t) (auto simp: contentCalls_def)

lemma contentCalls_Cons: "contentCalls ((Content, ok) # t) = Suc (contentCalls t)"
  by (simp add: contentCalls_def)

text \<open>What one run of the loop adds to the trace, from any state of its variables.\<close>

lemma paginationLoop_trace:
  "\<exists>t. trace (snd (paginationLoop pp ch engine n acc s)) = trace s @ t
       \<and> contentCalls t \<le> Suc maxPages - n
       \<and> (n \<le> maxPages \<longrightarrow> 1 \<le> contentCalls t)
       \<and> (isl (fst (paginationLoop pp ch engine n acc s)) \<longleftrightarrow> (Content, False) \<in> set t)
       \<and> PageClose \<notin> fst ` set t"
proof (induction "Suc maxPages - n" arbitrary: n acc s)
  case 0
  then have "\<not> n \<le> maxPages" by simp
  then show ?case
    by (intro exI [of _ "[]"]) (simp add: paginationLoop_done contentCalls_def)
next
  case (Suc k)
  then have n: "n \<le> maxPages" and k: "k = Suc maxPages - (n + 1)" by simp_all
  let ?s1 = "afterContent pp s"
  show ?case
  proof (cases "fst (pp_content pp (world s))")
    case (Inl e)
    have "trace (snd (paginationLoop pp ch engine n acc s)) = trace s @ [(Content, False)]"
      and "isl (fst (paginationLoop pp ch engine n acc s))"
      by (simp_all add: paginationLoop_throw [OF n Inl])
    moreover have "contentCalls [(Content, False)] = 1" by (simp add: contentCalls_def)
    ultimately show ?thesis
      using n by (intro exI [of _ "[(Content, False)]"]) simp
  next
    case (Inr html)
    obtain b s2 where g: "goToNextPage pp n ?s1 = (Inr b, s2)"
      using goToNextPage_returns [of pp n ?s1] by (elim exE)
    have "quietly ?s1 s2"
      using goToNextPage_quietly [of ?s1 pp n] g by simp
    then obtain t2 where t2: "trace s2 = trace ?s1 @ t2" "Content \<notin> fst ` set t2"
      "PageClose \<notin> fst ` set t2"
      unfolding quietly_def by (elim exE conjE)
    have s1: "trace ?s1 = trace s @ [(Content, True)]" by (simp add: afterContent_def)
    have c2: "contentCalls t2 = 0" using t2(2) by (rule contentCalls_quiet)
    have nf: "(Content, False) \<notin> set t2"
      using t2(2) by (metis fst_conv image_eqI)
    show ?thesis
    proof (cases b)
      case False
      with g have g': "goToNextPage pp n ?s1 = (Inr False, s2)" by simp
      have e: "paginationLoop pp ch engine n acc s =
          (Inr (acc @ extractPropertiesHtml ch engine (opt_suburb s) html), s2)"
        by (rule paginationLoop_last [OF n Inr g'])
      show ?thesis
        using n t2 c2 nf s1
        by (intro exI [of _ "(Content, True) # t2"])
          (auto simp: e contentCalls_Cons)
    next
      case True
      with g have g': "goToNextPage pp n ?s1 = (Inr True, s2)" by simp
      have e: "paginationLoop pp ch engine n acc s =
          paginationLoop pp ch engine (n + 1)
            (acc @ extractPropertiesHtml ch engine (opt_suburb s) html) s2"
        by (rule paginationLoop_next [OF n Inr g'])
      let ?r = "paginationLoop pp ch engine (n + 1)
            (acc @ extractPropertiesHtml ch engine (opt_suburb s) html) s2"
      from Suc.hyps(1) [OF k, of "acc @ extractPropertiesHtml ch engine (opt_suburb s) html" s2]
      obtain t3 where t3: "trace (snd ?r) = trace s2 @ t3"
        "contentCalls t3 \<le> Suc maxPages - (n + 1)"
        "isl (fst ?r) \<longleftrightarrow> (Content, False) \<in> set t3"
        "PageClose \<notin> fst ` set t3"
        by blast
      show ?thesis
        using n t2 c2 nf s1 t3
        by (intro exI [of _ "(Content, True) # t2 @ t3"])
          (auto simp: e contentCalls_Cons contentCalls_append)
    qed
  qed
qed

text \<open>The same when a next-page control is found every time and the markup is always
  read: the loop runs until the page number passes the cap.\<close>

lemma paginationLoop_endless:
  assumes found: "\<And>n s. fst (goToNextPage pp n s) = Inr True"
    and content: "\<And>w. \<not> isl (fst (pp_content pp w))"
  shows "\<exists>t. trace (snd (paginationLoop pp ch engine n acc s)) = trace s @ t
       \<and> contentCalls t = Suc maxPages - n
       \<and> \<not> isl (fst (paginationLoop pp ch engine n acc s))"
proof (induction "Suc maxPages - n" arbitrary: n acc s)
  case 0
  then have "\<not> n \<le> maxPages" by simp
  then show ?case
    by (intro exI [of _ "[]"]) (simp add: paginationLoop_done contentCalls_def)
next
  case (Suc k)
  then have n: "n \<le> maxPages" and k: "k = Suc maxPages - (n + 1)" by simp_all
  let ?s1 = "afterContent pp s"
  obtain html where html: "fst (pp_content pp (world s)) = Inr html"
    using content [of "world s"] by (cases "fst (pp_content pp (world s))") simp_all
  obtain s2 where g: "goToNextPage pp n ?s1 = (Inr True, s2)"
    using found [of n ?s1] by (cases "goToNextPage pp n ?s1") simp
  have "quietly ?s1 s2"
    using goToNextPage_quietly [of ?s1 pp n] g by simp
  then obtain t2 where t2: "trace s2 = trace ?s1 @ t2" "Content \<notin> fst ` set t2"
    unfolding quietly_def by (elim exE conjE)
  have s1: "trace ?s1 = trace s @ [(Content, True)]" by (simp add: afterContent_def)
  have c2: "contentCalls t2 = 0" using t2(2) by (rule contentCalls_quiet)
  have e: "paginationLoop pp ch engine n acc s =
      paginationLoop pp ch engine (n + 1)
        (acc @ extractPropertiesHtml ch engine (opt_suburb s) html) s2"
    using paginationLoop_next [OF n html g] .
  let ?r = "paginationLoop pp ch engine (n + 1)
        (acc @ extractPropertiesHtml ch engine (opt_suburb s) html) s2"
  from Suc.hyps(1) [OF k, of "acc @ extractPropertiesHtml ch engine (opt_suburb s) html" s2]
  obtain t3 where t3: "trace (snd ?r) = trace s2 @ t3"
    "contentCalls t3 = Suc maxPages - (n + 1)" "\<not> isl (fst ?r)"
    by blast
  show ?case
    using n t2 c2 s1 t3
    by (intro exI [of _ "(Content, True) # t2 @ t3"])
      (auto simp: e contentCalls_Cons contentCalls_append)
qed

subsection \<open>C3: the walk ends within the page cap\<close>

text \<open>
  Claim C3. \<open>extractPropertiesWithPagination\<close> always terminates: the loop is a total
  function, the cap is the constant 100 (the method takes no page limit from its
  caller), and whatever the browser does a run makes at least one and at most 100
  extraction calls. If a next-page control is found on every page visited, for as long
  as one looks, and every page's markup is read, the run makes exactly 100 extraction
  calls and then returns.
\<close>

theorem pagination_stops_at_cap:
  "maxPages = 100
   \<and> (\<exists>t. trace (snd (extractPropertiesWithPagination pp ch engine s)) = trace s @ t
          \<and> 1 \<le> contentCalls t \<and> contentCalls t \<le> 100)
   \<and> ((\<forall>n s'. fst (goToNextPage pp n s') = Inr True) \<and> (\<forall>w. \<not> isl (fst (pp_content pp w)))
        \<longrightarrow> (\<exists>t. trace (snd (extractPropertiesWithPagination pp ch engine s)) = trace s @ t
               \<and> contentCalls t = 100
               \<and> \<not> isl (fst (extractPropertiesWithPagination pp ch engine s))))"
proof (intro conjI impI)
  show "maxPages = 100" by (simp add: maxPages_def)
next
  from paginationLoop_trace [of pp ch engine 1 "[]" s]
  obtain t where "trace (snd (paginationLoop pp ch engine 1 [] s)) = trace s @ t"
    "contentCalls t \<le> Suc maxPages - 1" "1 \<le> maxPages \<longrightarrow> 1 \<le> contentCalls t"
    by blast
  then have "trace (snd (extractPropertiesWithPagination pp ch engine s)) = trace s @ t
      \<and> 1 \<le> contentCalls t \<and> contentCalls t \<le> 100"
    by (simp add: extractPropertiesWithPagination_def maxPages_def)
  then show "\<exists>t. trace (snd (extractPropertiesWithPagination pp ch engine s)) = trace s @ t
      \<and> 1 \<le> contentCalls t \<and> contentCalls t \<le> 100" ..
next
  assume a: "(\<forall>n s'. fst (goToNextPage pp n s') = Inr True)
      \<and> (\<forall>w. \<not> isl (fst (pp_content pp w)))"
  have f: "fst (goToNextPage pp n s') = Inr True" for n s'
    using a [THEN conjunct1, THEN spec, THEN spec] .
  have c: "\<not> isl (fst (pp_content pp w))" for w
    using a [THEN conjunct2, THEN spec] .
  from paginationLoop_endless [of pp ch engine 1 "[]" s, OF f c]
  obtain t where "trace (snd (paginationLoop pp ch engine 1 [] s)) = trace s @ t"
    "contentCalls t = Suc maxPages - 1" "\<not> isl (fst (paginationLoop pp ch engine 1 [] s))"
    by blast
  then have "trace (snd (extractPropertiesWithPagination pp ch engine s)) = trace s @ t
      \<and> contentCalls t = 100
      \<and> \<not> isl (fst (extractPropertiesWithPagination pp ch engine s))"
    by (simp add: extractPropertiesWithPagination_def maxPages_def)
  then show "\<exists>t. trace (snd (extractPropertiesWithPagination pp ch engine s)) = trace s @ t
      \<and> contentCalls t = 100
      \<and> \<not> isl (fst (extractPropertiesWithPagination pp ch engine s))" ..
qed

lemmas action_eval =
  bindM_def catchM_def finallyM_def callM_eq retM_def throwM_def getsM_def modifyM_def
  takeScreenshot_def

lemma endless_next: "fst (goToNextPage endlessPuppeteer n s) = Inr True"
  by (simp add: goToNextPage_def nextPageSelectors_def action_eval endlessPuppeteer_def)

lemma endless_content: "\<not> isl (fst (pp_content endlessPuppeteer w))"
  by (simp add: endlessPuppeteer_def)

text \<open>On the site whose every page shows a next-page control, a run from a fresh,
  initialised scraper makes exactly 100 extraction calls and returns.\<close>

theorem pagination_stops_at_cap_witness:
  "(\<forall>n s. fst (goToNextPage endlessPuppeteer n s) = Inr True)
   \<and> (\<forall>w. \<not> isl (fst (pp_content endlessPuppeteer w)))
   \<and> contentCalls (trace (snd (extractPropertiesWithPagination endlessPuppeteer demoCheerio
         (\<lambda>s. InvalidDate) (readyScraper endlessPuppeteer ())))) = 100
   \<and> \<not> isl (fst (extractPropertiesWithPagination endlessPuppeteer demoCheerio
         (\<lambda>s. InvalidDate) (readyScraper endlessPuppeteer ())))"
proof -
  let ?s = "readyScraper endlessPuppeteer ()"
  let ?r = "extractPropertiesWithPagination endlessPuppeteer demoCheerio (\<lambda>s. InvalidDate) ?s"
  have h: "(\<forall>n s. fst (goToNextPage endlessPuppeteer n s) = Inr True)
      \<and> (\<forall>w. \<not> isl (fst (pp_content endlessPuppeteer w)))"
    by (intro conjI allI endless_next endless_content)
  have "\<exists>t. trace (snd ?r) = trace ?s @ t \<and> contentCalls t = 100 \<and> \<not> isl (fst ?r)"
    using pagination_stops_at_cap [of endlessPuppeteer demoCheerio "\<lambda>s. InvalidDate" ?s,
        THEN conjunct2, THEN conjunct2] h
    by (rule mp)
  then obtain t where t: "trace (snd ?r) = trace ?s @ t" "contentCalls t = 100" "\<not> isl (fst ?r)"
    by blast
  have "trace ?s = [(Launch, True)]"
    by (simp add: readyScraper_def init_def newScraper_def action_eval endlessPuppeteer_def)
  with t have "contentCalls (trace (snd ?r)) = 100"
    by (simp add: contentCalls_append) (simp add: contentCalls_def)
  with h t(3) show ?thesis by (intro conjI) (elim conjE, assumption)+
qed

subsection \<open>C4: the walk over a site of N pages\<close>







subsection \<open>C2: the cache of the resolved URL\<close>

lemma findListingUrlForSuburb_keeps_cache:
  "listingUrlForSuburb (snd (findListingUrlForSuburb pp sub s)) = listingUrlForSuburb s"
  using steps_findListingUrlForSuburb [OF obeys_sameCache, of pp sub]
  by (simp add: steps_def sameCache_def)

lemma findListingUrlForSuburb_cached:
  "listingUrlForSuburb s = Some u \<Longrightarrow> u \<noteq> [] \<Longrightarrow>
     findListingUrlForSuburb pp sub s = (Inr u, s)"
  by (simp add: findListingUrlForSuburb_def bindM_def getsM_def retM_def truthy_def orElse_def)

lemmas search_eval =
  findListingUrlForSuburb_def closeCookieBanner_def searchInputSelectors_def searchWith_def
  searchButton_def isListingUrl_def truthy_def BASE_URL_def nextPageSelectors_def

text \<open>
  Claim C2 says that once \<open>findListingUrlForSuburb\<close> has returned a resolved URL, a
  later call on the same instance returns it from the cache without running the search
  again. The method tests the field \<open>listingUrlForSuburb\<close> but never assigns it: whatever
  the browser does, the field is after the call what it was before. On the paged site,
  a fresh scraper resolves the URL with fifteen puppeteer calls, the cache is still empty
  afterwards, and the second call on the same instance makes the same fifteen calls
  again, starting with the navigation to the home page.
\<close>

theorem findListingUrlForSuburb_never_caches:
  "listingUrlForSuburb (snd (findListingUrlForSuburb pp sub s)) = listingUrlForSuburb s
   \<and> listingUrlForSuburb (readyScraper (sitePuppeteer calmSite) [''page 1'']) = None
   \<and> fst (findListingUrlForSuburb (sitePuppeteer calmSite) ''Sandton''
          (readyScraper (sitePuppeteer calmSite) [''page 1''])) =
       Inr ''https://www.property24.com/for-sale/sandton/109''
   \<and> listingUrlForSuburb (snd (findListingUrlForSuburb (sitePuppeteer calmSite) ''Sandton''
          (readyScraper (sitePuppeteer calmSite) [''page 1'']))) = None
   \<and> length (trace (snd (findListingUrlForSuburb (sitePuppeteer calmSite) ''Sandton''
          (readyScraper (sitePuppeteer calmSite) [''page 1''])))) = 16
   \<and> length (trace (snd (findListingUrlForSuburb (sitePuppeteer calmSite) ''Sandton''
          (snd (findListingUrlForSuburb (sitePuppeteer calmSite) ''Sandton''
             (readyScraper (sitePuppeteer calmSite) [''page 1'']))))))  = 31
   \<and> trace (snd (findListingUrlForSuburb (sitePuppeteer calmSite) ''Sandton''
          (snd (findListingUrlForSuburb (sitePuppeteer calmSite) ''Sandton''
             (readyScraper (sitePuppeteer calmSite) [''page 1''])))))  ! 16 =
       (Goto ''https://www.property24.com'', True)"
proof -
  let ?pp = "sitePuppeteer calmSite"
  let ?s0 = "readyScraper ?pp [''page 1'']"
  have s0: "?s0 =
      \<lparr> world = [''page 1''], browser = True, opt_suburb = ''Sandton'',
        opt_headless = Some True, opt_timeout = Some 30000, screenshotCounter = 0,
        listingUrlForSuburb = None, trace = [(Launch, True)] \<rparr>"
    by (simp add: readyScraper_def init_def newScraper_def sandtonOptions_def action_eval
        sitePuppeteer_def)
  have r1: "fst (findListingUrlForSuburb ?pp ''Sandton'' ?s0) =
       Inr ''https://www.property24.com/for-sale/sandton/109''"
    and l1: "length (trace (snd (findListingUrlForSuburb ?pp ''Sandton'' ?s0))) = 16"
    unfolding s0
    by (simp_all add: search_eval action_eval sitePuppeteer_def calmSite_def string_eval)
  have r2: "length (trace (snd (findListingUrlForSuburb ?pp ''Sandton''
          (snd (findListingUrlForSuburb ?pp ''Sandton'' ?s0))))) = 31"
    and g2: "trace (snd (findListingUrlForSuburb ?pp ''Sandton''
          (snd (findListingUrlForSuburb ?pp ''Sandton'' ?s0)))) ! 16 =
       (Goto ''https://www.property24.com'', True)"
    unfolding s0
    by (simp_all add: search_eval action_eval sitePuppeteer_def calmSite_def string_eval)
  have c0: "listingUrlForSuburb ?s0 = None" by (simp add: s0)
  have c1: "listingUrlForSuburb (snd (findListingUrlForSuburb ?pp ''Sandton'' ?s0)) = None"
    by (simp only: findListingUrlForSuburb_keeps_cache c0)
  show ?thesis
    using r1 l1 r2 g2 c0 c1 findListingUrlForSuburb_keeps_cache [of pp sub s]
    by (intro conjI)
qed

subsection \<open>C1: the outcome of scrapeSuburb\<close>

lemma quiet_run:
  assumes "steps quietly m"
  obtains r s1 t where "m s = (r, s1)" "trace s1 = trace s @ t"
    "Content \<notin> fst ` set t" "PageClose \<notin> fst ` set t"
proof -
  from assms have "quietly s (snd (m s))" by (simp add: steps_def)
  then obtain t where "trace (snd (m s)) = trace s @ t"
    "Content \<notin> fst ` set t" "PageClose \<notin> fst ` set t"
    unfolding quietly_def by blast
  then show ?thesis using that [of "fst (m s)" "snd (m s)" t] by simp
qed

lemma quiet_no_failed_content: "Content \<notin> fst ` set t \<Longrightarrow> (Content, ok) \<notin> set t"
  by (metis fst_conv image_eqI)

lemma quiet_no_failed_close: "PageClose \<notin> fst ` set t \<Longrightarrow> (PageClose, ok) \<notin> set t"
  by (metis fst_conv image_eqI)

lemma contentCalls_pos: "1 \<le> contentCalls t \<Longrightarrow> Content \<in> fst ` set t"
  using contentCalls_quiet [of t] by fastforce

text \<open>The pagination stage has been reached and neither a \<open>page.content()\<close> nor a
  \<open>page.close()\<close> has thrown.\<close>

definition cleanRun :: "(call \<times> bool) list \<Rightarrow> bool" where
  "cleanRun t =
     (Content \<in> fst ` set t \<and> (Content, False) \<notin> set t \<and> (PageClose, False) \<notin> set t)"

text \<open>The inner \<open>try\<close> block: it closes no page; when it returns, it returns the success
  object, a \<open>page.content()\<close> call has been made and none has thrown; when it throws,
  either no \<open>page.content()\<close> call has been made or one has thrown.\<close>

lemma scrapeListing_trace:
  "\<exists>t. trace (snd (scrapeListing pp ch engine sub url s)) = trace s @ t
       \<and> PageClose \<notin> fst ` set t
       \<and> (case fst (scrapeListing pp ch engine sub url s) of
             Inr res \<Rightarrow> (\<exists>props. res = successResult sub props)
                 \<and> Content \<in> fst ` set t \<and> (Content, False) \<notin> set t
           | Inl e \<Rightarrow> Content \<notin> fst ` set t \<or> (Content, False) \<in> set t)"
proof -
  let ?shot2 = "takeScreenshot pp ''properties-extracted''"
  let ?walk = "extractPropertiesWithPagination pp ch engine"
  let ?wait = "catchM (callM (WaitForSelector cardSelector)
      (pp_waitForSelector pp cardSelector 10000)) (\<lambda>e. retM ())"
  let ?shot1 = "takeScreenshot pp ''listing-page-loaded''"
  let ?goto = "callM (Goto url)
      (pp_goto pp url (case opt_timeout s of None \<Rightarrow> 30000 | Some ms \<Rightarrow> ms))"
  let ?k4 = "\<lambda>props. bindM ?shot2 (\<lambda>u. retM (successResult sub props))"
  let ?k3 = "\<lambda>u :: unit. bindM ?walk ?k4"
  let ?k2 = "\<lambda>u :: unit. bindM ?wait ?k3"
  let ?k1 = "\<lambda>u :: unit. bindM ?shot1 ?k2"
  have start: "scrapeListing pp ch engine sub url s = bindM ?goto ?k1 s"
    by (simp add: scrapeListing_def bindM_def getsM_def)
  have qg: "steps quietly ?goto"
    by (intro steps_rules obeys_quietly) simp_all
  obtain r1 s1 t1 where g: "?goto s = (r1, s1)" and t1: "trace s1 = trace s @ t1"
    "Content \<notin> fst ` set t1" "PageClose \<notin> fst ` set t1"
    by (rule quiet_run [OF qg, of s])
  show ?thesis
  proof (cases r1)
    case (Inl e)
    with g have "scrapeListing pp ch engine sub url s = (Inl e, s1)"
      by (simp add: start bindM_Inl)
    with t1 show ?thesis
      by (intro exI [of _ t1]) simp
  next
    case (Inr u1)
    with g have e1: "scrapeListing pp ch engine sub url s = ?k1 () s1"
      by (simp add: start bindM_Inr)
    have "steps quietly ?shot1" by (intro steps_rules obeys_quietly)
    then obtain r2 s2 t2 where sh: "?shot1 s1 = (r2, s2)" and t2: "trace s2 = trace s1 @ t2"
      "Content \<notin> fst ` set t2" "PageClose \<notin> fst ` set t2"
      by (rule quiet_run)
    from takeScreenshot_returns [of pp "''listing-page-loaded''" s1] sh
    have r2: "r2 = Inr ()" by auto
    from sh r2 have e2: "?k1 () s1 = ?k2 () s2"
      by (simp add: bindM_Inr)
    have "steps quietly ?wait"
      by (intro steps_rules obeys_quietly) simp_all
    then obtain r3 s3 t3 where wt: "?wait s2 = (r3, s3)" and t3: "trace s3 = trace s2 @ t3"
      "Content \<notin> fst ` set t3" "PageClose \<notin> fst ` set t3"
      by (rule quiet_run)
    have "\<exists>x s'. ?wait s2 = (Inr x, s')"
      by (rule catchM_returns) (simp add: retM_def)
    with wt have r3: "r3 = Inr ()" by auto
    from wt r3 have e3: "?k2 () s2 = ?k3 () s3"
      by (simp add: bindM_Inr)
    obtain r4 s4 where wk: "?walk s3 = (r4, s4)" by (cases "?walk s3")
    from paginationLoop_trace [of pp ch engine 1 "[]" s3] wk
    obtain t4 where t4: "trace s4 = trace s3 @ t4" "1 \<le> contentCalls t4"
      "isl r4 \<longleftrightarrow> (Content, False) \<in> set t4" "PageClose \<notin> fst ` set t4"
      by (auto simp: extractPropertiesWithPagination_def maxPages_def)
    have c4: "Content \<in> fst ` set t4" using t4(2) by (rule contentCalls_pos)
    have tr4: "trace s4 = trace s @ (t1 @ t2 @ t3 @ t4)"
      using t1(1) t2(1) t3(1) t4(1) by simp
    show ?thesis
    proof (cases r4)
      case (Inl e)
      with wk have "?k3 () s3 = (Inl e, s4)" by (simp add: bindM_Inl)
      then have r: "scrapeListing pp ch engine sub url s = (Inl e, s4)"
        by (simp only: e1 e2 e3)
      from Inl t4(3) have "(Content, False) \<in> set (t1 @ t2 @ t3 @ t4)" by simp
      moreover have "PageClose \<notin> fst ` set (t1 @ t2 @ t3 @ t4)"
        using t1(3) t2(3) t3(3) t4(4) by auto
      ultimately show ?thesis
        using tr4 by (intro exI [of _ "t1 @ t2 @ t3 @ t4"]) (simp add: r)
    next
      case (Inr props)
      with wk have e4: "?k3 () s3 = ?k4 props s4" by (simp add: bindM_Inr)
      have "steps quietly ?shot2" by (intro steps_rules obeys_quietly)
      then obtain r5 s5 t5 where sh2: "?shot2 s4 = (r5, s5)"
        and t5: "trace s5 = trace s4 @ t5"
        "Content \<notin> fst ` set t5" "PageClose \<notin> fst ` set t5"
        by (rule quiet_run)
      from takeScreenshot_returns [of pp "''properties-extracted''" s4] sh2
      have r5: "r5 = Inr ()" by auto
      from sh2 r5 have "?k4 props s4 = (Inr (successResult sub props), s5)"
        by (simp add: bindM_Inr retM_def)
      then have r: "scrapeListing pp ch engine sub url s = (Inr (successResult sub props), s5)"
        by (simp only: e1 e2 e3 e4)
      have tr5: "trace s5 = trace s @ (t1 @ t2 @ t3 @ t4 @ t5)"
        using tr4 t5(1) by simp
      from Inr t4(3) have nf4: "(Content, False) \<notin> set t4" by simp
      have "(Content, False) \<notin> set (t1 @ t2 @ t3 @ t4 @ t5)"
        using quiet_no_failed_content [OF t1(2)] quiet_no_failed_content [OF t2(2)]
          quiet_no_failed_content [OF t3(2)] nf4 quiet_no_failed_content [OF t5(2)]
        by simp
      moreover have "Content \<in> fst ` set (t1 @ t2 @ t3 @ t4 @ t5)"
        using c4 by auto
      moreover have "PageClose \<notin> fst ` set (t1 @ t2 @ t3 @ t4 @ t5)"
        using t1(3) t2(3) t3(3) t4(4) t5(3) by auto
      moreover have "\<exists>p. successResult sub props = successResult sub p" by (rule exI) (rule refl)
      ultimately show ?thesis
        using tr5 by (intro exI [of _ "t1 @ t2 @ t3 @ t4 @ t5"]) (simp add: r)
    qed
  qed
qed

lemma finallyM_eq:
  "m s = (r, s1) \<Longrightarrow> c s1 = (rc, s2) \<Longrightarrow>
     finallyM m c s = (case rc of Inl e \<Rightarrow> (Inl e, s2) | Inr u \<Rightarrow> (r, s2))"
  by (simp add: finallyM_def split: sum.splits)

lemma cleanRun_quiet: "Content \<notin> fst ` set t \<Longrightarrow> \<not> cleanRun t"
  by (simp add: cleanRun_def)

text \<open>The body of the outer \<open>try\<close>: it returns the success object after a clean run and
  throws after any other.\<close>

lemma scrapeSuburb_body:
  fixes pp :: "'w puppeteer" and ch :: "'e cheerio" and engine :: "string \<Rightarrow> jsdate"
  defines "body \<equiv>
     bindM (getsM browser) (\<lambda>b.
     bindM (if \<not> b then throwM ''Browser not initialized'' else retM ()) (\<lambda>u.
     bindM (callM NewPage (pp_newPage pp)) (\<lambda>u.
     bindM (getsM opt_suburb) (\<lambda>sub.
     bindM (findListingUrlForSuburb pp sub) (\<lambda>searchUrl.
     finallyM (scrapeListing pp ch engine sub searchUrl)
       (callM PageClose (pp_pageClose pp)))))))"
  shows "\<exists>t. trace (snd (body s)) = trace s @ t
       \<and> (case fst (body s) of
             Inr res \<Rightarrow> (\<exists>props. res = successResult (opt_suburb s) props) \<and> cleanRun t
           | Inl e \<Rightarrow> \<not> cleanRun t)"
proof (cases "browser s")
  case False
  then have "body s = (Inl ''Browser not initialized'', s)"
    by (simp add: body_def bindM_def getsM_def throwM_def)
  then show ?thesis
    by (intro exI [of _ "[]"]) (simp add: cleanRun_def)
next
  case True
  let ?close = "callM PageClose (pp_pageClose pp)"
  let ?fin = "\<lambda>sub url. finallyM (scrapeListing pp ch engine sub url) ?close"
  let ?k3 = "\<lambda>sub. bindM (findListingUrlForSuburb pp sub) (?fin sub)"
  let ?new = "callM NewPage (pp_newPage pp) :: ('w, unit) action"
  from True have b0: "body s = bindM ?new (\<lambda>u. bindM (getsM opt_suburb) ?k3) s"
    by (simp add: body_def bindM_def getsM_def retM_def)
  have "steps quietly ?new"
    by (intro steps_rules obeys_quietly) simp_all
  then obtain r1 s1 t1 where g: "?new s = (r1, s1)" and t1: "trace s1 = trace s @ t1"
    "Content \<notin> fst ` set t1" "PageClose \<notin> fst ` set t1"
    by (rule quiet_run)
  from g have sub1: "opt_suburb s1 = opt_suburb s"
    by (auto simp: callM_eq)
  show ?thesis
  proof (cases r1)
    case (Inl e)
    with g have "body s = (Inl e, s1)" by (simp add: b0 bindM_Inl)
    with t1 show ?thesis
      by (intro exI [of _ t1]) (simp add: cleanRun_quiet)
  next
    case (Inr u1)
    with g have b1: "body s = ?k3 (opt_suburb s) s1"
      by (simp add: b0 bindM_Inr) (simp add: bindM_def getsM_def sub1)
    let ?sub = "opt_suburb s"
    have "steps quietly (findListingUrlForSuburb pp ?sub)"
      by (intro steps_rules obeys_quietly)
    then obtain r2 s2 t2 where f: "findListingUrlForSuburb pp ?sub s1 = (r2, s2)"
      and t2: "trace s2 = trace s1 @ t2" "Content \<notin> fst ` set t2" "PageClose \<notin> fst ` set t2"
      by (rule quiet_run)
    show ?thesis
    proof (cases r2)
      case (Inl e)
      with f have "body s = (Inl e, s2)" by (simp add: b1 bindM_Inl)
      moreover have "trace s2 = trace s @ (t1 @ t2)" using t1(1) t2(1) by simp
      moreover have "\<not> cleanRun (t1 @ t2)"
        using t1(2) t2(2) by (intro cleanRun_quiet) auto
      ultimately show ?thesis
        by (intro exI [of _ "t1 @ t2"]) simp
    next
      case (Inr url)
      with f have b2: "body s = ?fin ?sub url s2" by (simp add: b1 bindM_Inr)
      let ?l = "scrapeListing pp ch engine ?sub url s2"
      obtain r3 s3 where l: "?l = (r3, s3)" by (cases ?l)
      from scrapeListing_trace [of pp ch engine ?sub url s2] l
      obtain t3 where t3: "trace s3 = trace s2 @ t3" "PageClose \<notin> fst ` set t3"
        and out: "case r3 of
             Inr res \<Rightarrow> (\<exists>props. res = successResult ?sub props)
                 \<and> Content \<in> fst ` set t3 \<and> (Content, False) \<notin> set t3
           | Inl e \<Rightarrow> Content \<notin> fst ` set t3 \<or> (Content, False) \<in> set t3"
        by auto
      obtain rc s4 where c: "?close s3 = (rc, s4)" by (cases "?close s3")
      then have t4: "trace s4 = trace s3 @ [(PageClose, \<not> isl rc)]"
        by (auto simp: callM_eq)
      have b3: "body s = (case rc of Inl e \<Rightarrow> (Inl e, s4) | Inr u \<Rightarrow> (r3, s4))"
        unfolding b2
        by (rule finallyM_eq [of "scrapeListing pp ch engine ?sub url" s2 r3 s3 ?close rc s4,
              OF l c])
      let ?t = "t1 @ t2 @ t3 @ [(PageClose, \<not> isl rc)]"
      have tr: "trace s4 = trace s @ ?t"
        using t1(1) t2(1) t3(1) t4 by simp
      have n1: "(Content, ok) \<notin> set t1" "(PageClose, ok) \<notin> set t1"
        and n2: "(Content, ok) \<notin> set t2" "(PageClose, ok) \<notin> set t2"
        and n3: "(PageClose, ok) \<notin> set t3" for ok
        using t1 t2 t3
        by (simp_all add: quiet_no_failed_content quiet_no_failed_close)
      have clean: "cleanRun ?t \<longleftrightarrow>
          Content \<in> fst ` set t3 \<and> (Content, False) \<notin> set t3 \<and> \<not> isl rc"
        using t1(2) t2(2) n1 n2 n3
        by (auto simp: cleanRun_def image_Un)
      show ?thesis
      proof (cases rc)
        case (Inl e)
        then have "body s = (Inl e, s4)" by (simp add: b3)
        moreover from Inl clean have "\<not> cleanRun ?t" by simp
        ultimately show ?thesis
          using tr by (intro exI [of _ ?t]) simp
      next
        case cl: (Inr u)
        then have b4: "body s = (r3, s4)" by (simp add: b3)
        show ?thesis
        proof (cases r3)
          case (Inl e)
          with out clean have "\<not> cleanRun ?t" by auto
          with Inl b4 tr show ?thesis
            by (intro exI [of _ ?t]) simp
        next
          case (Inr res)
          with out cl clean have "cleanRun ?t" and "\<exists>props. res = successResult ?sub props"
            by simp_all
          with Inr b4 tr show ?thesis
            by (intro exI [of _ ?t]) simp
        qed
      qed
    qed
  qed
qed

text \<open>
  Claim C1, amended. \<open>scrapeSuburb\<close> never throws to its caller: it always returns a
  result object. It returns the success object (\<open>success = true\<close>, \<open>propertiesScraped\<close>
  the number of records, which may be 0, no error) exactly when the run reached the
  pagination stage, so that \<open>page.content()\<close> was called, and neither a
  \<open>page.content()\<close> call nor the closing \<open>page.close()\<close> threw. In every other case (a
  failure before the pagination stage, such as a browser that is not initialised, a
  failed navigation or an unresolved URL; a \<open>page.content()\<close> that throws during the
  walk; a \<open>page.close()\<close> that throws) it returns the failure object: \<open>success = false\<close>,
  \<open>propertiesScraped = 0\<close>, an empty \<open>properties\<close> sequence and one error message.
\<close>

theorem scrapeSuburb_outcome:
  "(\<exists>t. trace (snd (scrapeSuburb pp ch engine s)) = trace s @ t
        \<and> (if Content \<in> fst ` set t \<and> (Content, False) \<notin> set t \<and> (PageClose, False) \<notin> set t
            then \<exists>props. fst (scrapeSuburb pp ch engine s)
                   = Inr (successResult (opt_suburb s) props)
            else \<exists>e. fst (scrapeSuburb pp ch engine s) = Inr (failureResult e)))
   \<and> success (successResult sub props) \<and> propertiesScraped (successResult sub props) = length props
   \<and> properties (successResult sub props) = Some props \<and> errors (successResult sub props) = []
   \<and> \<not> success (failureResult e) \<and> propertiesScraped (failureResult e) = 0
   \<and> properties (failureResult e) = Some [] \<and> errors (failureResult e) = [e]"
proof -
  let ?body = "bindM (getsM browser) (\<lambda>b.
     bindM (if \<not> b then throwM ''Browser not initialized'' else retM ()) (\<lambda>u.
     bindM (callM NewPage (pp_newPage pp)) (\<lambda>u.
     bindM (getsM opt_suburb) (\<lambda>sub.
     bindM (findListingUrlForSuburb pp sub) (\<lambda>searchUrl.
     finallyM (scrapeListing pp ch engine sub searchUrl)
       (callM PageClose (pp_pageClose pp)))))))"
  let ?run = "scrapeSuburb pp ch engine s"
  have start: "?run = catchM ?body (\<lambda>errorMessage. retM (failureResult errorMessage)) s"
    by (simp add: scrapeSuburb_def)
  obtain r s1 where b: "?body s = (r, s1)" by (cases "?body s")
  from scrapeSuburb_body [of pp ch engine s] b
  obtain t where t: "trace s1 = trace s @ t"
    and out: "case r of
        Inr res \<Rightarrow> (\<exists>props. res = successResult (opt_suburb s) props) \<and> cleanRun t
      | Inl e \<Rightarrow> \<not> cleanRun t"
    by auto
  have "trace (snd ?run) = trace s @ t
      \<and> (if cleanRun t
          then \<exists>props. fst ?run = Inr (successResult (opt_suburb s) props)
          else \<exists>e. fst ?run = Inr (failureResult e))"
  proof (cases r)
    case (Inl e)
    with b have "?run = (Inr (failureResult e), s1)"
      by (simp add: start catchM_Inl retM_def)
    with Inl out t show ?thesis by simp (rule exI [of _ e], rule refl)
  next
    case (Inr res)
    with b have "?run = (Inr res, s1)"
      by (simp add: start catchM_Inr)
    with Inr out t show ?thesis by auto
  qed
  then have "\<exists>t. trace (snd ?run) = trace s @ t
      \<and> (if Content \<in> fst ` set t \<and> (Content, False) \<notin> set t \<and> (PageClose, False) \<notin> set t
          then \<exists>props. fst ?run = Inr (successResult (opt_suburb s) props)
          else \<exists>e. fst ?run = Inr (failureResult e))"
    unfolding cleanRun_def by (rule exI)
  then show ?thesis
    by (simp add: successResult_def failureResult_def)
qed

lemma paginationLoop_unfold:
  "paginationLoop pp ch engine n acc s =
     (if n \<le> maxPages then
        (case fst (pp_content pp (world s)) of
           Inl e \<Rightarrow>
             (Inl e, s\<lparr> world := snd (pp_content pp (world s)),
                        trace := trace s @ [(Content, False)] \<rparr>)
         | Inr html \<Rightarrow>
             (case fst (goToNextPage pp n (afterContent pp s)) of
                Inl e \<Rightarrow>
                  (Inr (acc @ extractPropertiesHtml ch engine (opt_suburb s) html),
                   snd (goToNextPage pp n (afterContent pp s)))
              | Inr b \<Rightarrow>
                  if b then
                    paginationLoop pp ch engine (n + 1)
                      (acc @ extractPropertiesHtml ch engine (opt_suburb s) html)
                      (snd (goToNextPage pp n (afterContent pp s)))
                  else
                    (Inr (acc @ extractPropertiesHtml ch engine (opt_suburb s) html),
                     snd (goToNextPage pp n (afterContent pp s)))))
      else (Inr acc, s))"
proof (cases "n \<le> maxPages")
  case False
  then show ?thesis by (simp add: paginationLoop_done)
next
  case n: True
  show ?thesis
  proof (cases "fst (pp_content pp (world s))")
    case (Inl e)
    with n show ?thesis by (simp add: paginationLoop_throw)
  next
    case (Inr html)
    obtain b s2 where g: "goToNextPage pp n (afterContent pp s) = (Inr b, s2)"
      using goToNextPage_returns [of pp n "afterContent pp s"] by blast
    show ?thesis
    proof (cases b)
      case True
      with g have "goToNextPage pp n (afterContent pp s) = (Inr True, s2)" by simp
      from paginationLoop_next [OF n Inr this, of ch engine acc] g True n Inr
      show ?thesis by simp
    next
      case False
      with g have "goToNextPage pp n (afterContent pp s) = (Inr False, s2)" by simp
      from paginationLoop_last [OF n Inr this, of ch engine acc] g False n Inr
      show ?thesis by simp
    qed
  qed
qed

lemmas run_eval =
  scrapeSuburb_def scrapeListing_def extractPropertiesWithPagination_def
  paginationLoop_unfold afterContent_def goToNextPage_def maxPages_def cardSelector_def
  search_eval action_eval sitePuppeteer_def string_eval

lemma readyScraper_site:
  "readyScraper (sitePuppeteer q) w =
      \<lparr> world = w, browser = True, opt_suburb = ''Sandton'',
        opt_headless = Some True, opt_timeout = Some 30000, screenshotCounter = 0,
        listingUrlForSuburb = None, trace = [(Launch, True)] \<rparr>"
  by (simp add: readyScraper_def init_def newScraper_def sandtonOptions_def action_eval
      sitePuppeteer_def)

text \<open>
  Claim C1 as stated fails where it says that a run that reaches the pagination stage
  returns \<open>success = true\<close>: on a site where \<open>page.content()\<close> throws, the run gets
  as far as the first extraction call and returns the failure object.
\<close>

theorem scrapeSuburb_fails_after_pagination_started:
  "(Content, False) \<in> set (trace (snd (scrapeSuburb (sitePuppeteer brokenContentSite) demoCheerio
        (\<lambda>s. InvalidDate) (readyScraper (sitePuppeteer brokenContentSite) [''page 1'']))))
   \<and> fst (scrapeSuburb (sitePuppeteer brokenContentSite) demoCheerio
        (\<lambda>s. InvalidDate) (readyScraper (sitePuppeteer brokenContentSite) [''page 1''])) =
       Inr (failureResult ''Execution context was destroyed'')
   \<and> \<not> success (failureResult ''Execution context was destroyed'')"
  unfolding readyScraper_site
  by (simp add: run_eval brokenContentSite_def) (simp add: failureResult_def)

text \<open>Two runs: on a calm site whose one page holds no container the run succeeds
  with zero records; a scraper that was never initialised gets the failure object.\<close>

theorem scrapeSuburb_outcome_witness:
  "fst (scrapeSuburb (sitePuppeteer calmSite) demoCheerio (\<lambda>s. InvalidDate)
        (readyScraper (sitePuppeteer calmSite) [''page 2''])) =
       Inr (successResult ''Sandton'' [])
   \<and> success (successResult ''Sandton'' [])
   \<and> propertiesScraped (successResult ''Sandton'' []) = 0
   \<and> fst (scrapeSuburb (sitePuppeteer calmSite) demoCheerio (\<lambda>s. InvalidDate)
        (newScraper sandtonOptions [''page 2''])) =
       Inr (failureResult ''Browser not initialized'')
   \<and> errors (failureResult ''Browser not initialized'') = [''Browser not initialized'']"
proof -
  have r: "fst (scrapeSuburb (sitePuppeteer calmSite) demoCheerio (\<lambda>s. InvalidDate)
        (readyScraper (sitePuppeteer calmSite) [''page 2''])) =
       Inr (successResult ''Sandton'' [])"
    unfolding readyScraper_site
    by (simp add: run_eval calmSite_def extractPropertiesHtml_def demoCheerio_def
        containerSelector_def)
  have f: "fst (scrapeSuburb (sitePuppeteer calmSite) demoCheerio (\<lambda>s. InvalidDate)
        (newScraper sandtonOptions [''page 2''])) =
       Inr (failureResult ''Browser not initialized'')"
    by (simp add: scrapeSuburb_def newScraper_def sandtonOptions_def action_eval)
  note shapes = scrapeSuburb_outcome
    [where sub = "''Sandton''" and props = "[]" and e = "''Browser not initialized''",
      THEN conjunct2]
  from shapes have "success (successResult ''Sandton'' [])"
    and "propertiesScraped (successResult ''Sandton'' []) = 0"
    and "errors (failureResult ''Browser not initialized'') = [''Browser not initialized'']"
    by simp_all
  with r f show ?thesis by (intro conjI)
qed

end
